theory Spec2Isabelle
  imports Main "HOL-Library.Sublist" "HOL-Library.AList"
begin

section \<open>Python strings\<close>

text \<open>
  A Python \<open>str\<close> is modelled as a \<open>string\<close>: a list of characters, one \<open>char\<close> per
  code point (code points below 256). The helpers below are the standard-library
  operations that \<open>handler.py\<close> calls on strings.
\<close>

definition endswith :: "string \<Rightarrow> string \<Rightarrow> bool" where
  \<comment> \<open>\<open>s.endswith(suf)\<close>\<close>
  "endswith s suf = suffix suf s"

definition is_space :: "char \<Rightarrow> bool" where
  \<comment> \<open>\<open>c.isspace()\<close> on the code points below 256\<close>
  "is_space c = (of_char c \<in> {9, 10, 11, 12, 13, 28, 29, 30, 31, 32, 133, 160 :: nat})"

definition strip :: "string \<Rightarrow> string" where
  \<comment> \<open>\<open>s.strip()\<close>: leading and trailing whitespace removed\<close>
  "strip s = rev (dropWhile is_space (rev (dropWhile is_space s)))"

function split_str :: "string \<Rightarrow> string \<Rightarrow> string list" where
  \<comment> \<open>\<open>s.split(sep)\<close> for a non-empty \<open>sep\<close>: the pieces between the non-overlapping
      occurrences of \<open>sep\<close>, found from the left\<close>
  "split_str [] sep = [[]]"
| "split_str (c # cs) sep =
     (if prefix sep (c # cs) then [] # split_str (drop (length sep - 1) cs) sep
      else (case split_str cs sep of
              p # ps \<Rightarrow> (c # p) # ps
            | [] \<Rightarrow> [[c]]))"
  by pat_completeness auto
termination
  by (relation "measure (\<lambda>(s, sep). length s)") auto

function replace :: "string \<Rightarrow> string \<Rightarrow> string \<Rightarrow> string" where
  \<comment> \<open>\<open>s.replace(old, new)\<close> for a non-empty \<open>old\<close>: every non-overlapping occurrence
      of \<open>old\<close>, found from the left, replaced by \<open>new\<close>\<close>
  "replace [] old new = []"
| "replace (c # cs) old new =
     (if prefix old (c # cs) then new @ replace (drop (length old - 1) cs) old new
      else c # replace cs old new)"
  by pat_completeness auto
termination
  by (relation "measure (\<lambda>(s, old, new). length s)") auto

function str_nat :: "nat \<Rightarrow> string" where
  \<comment> \<open>decimal rendering of a non-negative integer\<close>
  "str_nat n =
     (if n < 10 then [char_of (48 + n)]
      else str_nat (n div 10) @ [char_of (48 + n mod 10)])"
  by pat_completeness auto
termination
  by (relation "measure id") auto

definition str_int :: "int \<Rightarrow> string" where
  \<comment> \<open>\<open>str(i)\<close>, as an f-string renders an integer\<close>
  "str_int i = (if i < 0 then CHR ''-'' # str_nat (nat (- i)) else str_nat (nat i))"

definition rfind_slash :: "string \<Rightarrow> nat" where
  \<comment> \<open>\<open>p.rfind('/') + 1\<close>: the length of the part of \<open>p\<close> up to and including its last
      slash, 0 when there is none\<close>
  "rfind_slash p = length p - length (takeWhile (\<lambda>c. c \<noteq> CHR ''/'') (rev p))"

definition dirname :: "string \<Rightarrow> string" where
  \<comment> \<open>\<open>os.path.dirname(p)\<close> (posixpath)\<close>
  "dirname p =
     (let head = take (rfind_slash p) p
      in if head \<noteq> [] \<and> head \<noteq> replicate (length head) (CHR ''/'')
         then rev (dropWhile (\<lambda>c. c = CHR ''/'') (rev head))
         else head)"

definition basename :: "string \<Rightarrow> string" where
  \<comment> \<open>\<open>os.path.basename(p)\<close> (posixpath)\<close>
  "basename p = drop (rfind_slash p) p"

section \<open>Verdicts and the scan report (\<open>run_scan\<close>, lines 66-97)\<close>

text \<open>
  A verdict is the tuple \<open>(status, detail)\<close> of the source: the status is one of the
  strings \<open>clean\<close>, \<open>infected\<close>, \<open>error\<close>, the detail is \<open>None\<close> or a string.
\<close>

type_synonym verdict = "string \<times> string option"

datatype exn =
    ClientError string string  \<comment> \<open>\<open>botocore.exceptions.ClientError\<close>: its error code, and \<open>str(e)\<close>\<close>
  | OtherError string          \<comment> \<open>any other \<open>Exception\<close>: \<open>str(e)\<close>\<close>

fun str_exn :: "exn \<Rightarrow> string" where
  "str_exn (ClientError code msg) = msg"
| "str_exn (OtherError msg) = msg"

fun find_virus_name :: "string list \<Rightarrow> string \<Rightarrow> string" where
  \<comment> \<open>the loop of lines 86-93 over the lines of the report; the second argument is
      the current \<open>virus_name\<close>\<close>
  "find_virus_name [] virus_name = virus_name"
| "find_virus_name (line # lines) virus_name =
     (if endswith (strip line) '' FOUND'' then
        (case split_str line '': '' of
           p0 # p1 # ps \<Rightarrow> strip (replace p1 '' FOUND'' '''')
         | _ \<Rightarrow> find_virus_name lines virus_name)
      else find_virus_name lines virus_name)"

definition scan_verdict :: "int \<times> string \<times> string \<Rightarrow> exn + verdict" where
  \<comment> \<open>lines 80-97: what \<open>run_scan\<close> makes of the exit status, stdout and stderr of clamscan\<close>
  "scan_verdict r =
     (case r of (exit_code, stdout, stderr) \<Rightarrow>
        if exit_code = 0 then Inr (''clean'', None)
        else if exit_code = 1 then
          Inr (''infected'', Some (find_virus_name (split_str stdout [CHR 0x0A]) ''Unknown''))
        else Inl (OtherError (''ClamAV scan error. Exit code: '' @ str_int exit_code
                               @ ''. STDERR: '' @ stderr)))"

fun after_colon_space :: "string \<Rightarrow> string" where
  \<comment> \<open>the text after the first colon-space of a line\<close>
  "after_colon_space [] = []"
| "after_colon_space (c # cs) =
     (if prefix '': '' (c # cs) then drop 1 cs else after_colon_space cs)"

definition spec_signature_name :: "string \<Rightarrow> string" where
  \<comment> \<open>the rule as the specification words it, for a line that ends in the marker:
      the text between the first colon-space and the trailing \<open>FOUND\<close> marker\<close>
  "spec_signature_name line =
     (let s = after_colon_space (strip line)
      in strip (take (length s - length '' FOUND'') s))"

section \<open>Tag merging (\<open>update_tags\<close>, lines 115-129)\<close>

type_synonym tag = "string \<times> string"  \<comment> \<open>\<open>{"Key": k, "Value": v}\<close>\<close>

fun additional_tags :: "string \<Rightarrow> string \<Rightarrow> string option \<Rightarrow> tag list" where
  \<comment> \<open>the dict \<open>additional_tags\<close> of lines 115-125, in insertion order; a detail is
      truthy when it is a non-empty string\<close>
  "additional_tags scan_time status None =
     [(''scan-result'', status), (''scan-time'', scan_time)]"
| "additional_tags scan_time status (Some detail) =
     [(''scan-result'', status), (''scan-time'', scan_time)] @
     (if status = ''infected'' \<and> detail \<noteq> [] then [(''virus-name'', detail)]
      else if status = ''error'' \<and> detail \<noteq> [] then
        [(''scan-error'',
          take 250 (replace (replace detail [CHR 0x0A] '' '') [CHR 0x0D] '' ''))]
      else [])"

definition tags_to_keep :: "tag list \<Rightarrow> tag list \<Rightarrow> tag list" where
  \<comment> \<open>lines 128-129: the existing tags whose key is not a new key, then the new tags\<close>
  "tags_to_keep tags additional =
     filter (\<lambda>t. fst t \<notin> set (map fst additional)) tags @ additional"

definition merged_tags :: "string \<Rightarrow> tag list \<Rightarrow> string \<Rightarrow> string option \<Rightarrow> tag list" where
  \<comment> \<open>the tag set that \<open>update_tags\<close> writes when it has read \<open>tags\<close>\<close>
  "merged_tags scan_time tags status detail =
     tags_to_keep tags (additional_tags scan_time status detail)"

section \<open>The platform and the handler's state\<close>

text \<open>
  Everything outside \<open>handler.py\<close> is a parameter: the storage client (boto3), the
  operating system and the scanner process. A platform gives, for every call the
  source makes, either the exception raised or the value returned, and the next state
  of the outside world \<open>'w\<close>. Bucket names are \<open>string option\<close> because the handler reads
  them with \<open>os.environ.get\<close>, which yields \<open>None\<close> for an unset variable.
\<close>

type_synonym page = "(string \<times> int) list option"
  \<comment> \<open>one page of \<open>list_objects_v2\<close>: its \<open>Contents\<close>, when present, as (Key, Size) pairs\<close>

record 'w platform =
  environ :: "string \<rightharpoonup> string"  \<comment> \<open>\<open>os.environ\<close>\<close>
  scan_time :: string  \<comment> \<open>the module-level \<open>scan_time\<close> of line 11\<close>
  s3_paginate :: "string option \<Rightarrow> string \<Rightarrow> 'w \<Rightarrow> (page list \<times> exn option) \<times> 'w"
    \<comment> \<open>iterating \<open>paginator.paginate(Bucket, Prefix)\<close>: the pages yielded, and the
        exception that ended the iteration, if any\<close>
  s3_download_file :: "string option \<Rightarrow> string \<Rightarrow> string \<Rightarrow> 'w \<Rightarrow> (exn + unit) \<times> 'w"
  s3_copy_object :: "string option \<Rightarrow> string option \<Rightarrow> string \<Rightarrow> 'w \<Rightarrow> (exn + unit) \<times> 'w"
    \<comment> \<open>\<open>Bucket\<close>, the bucket of \<open>CopySource\<close>, and the key (the same on both sides)\<close>
  s3_delete_object :: "string option \<Rightarrow> string \<Rightarrow> 'w \<Rightarrow> (exn + unit) \<times> 'w"
  s3_get_object_tagging :: "string option \<Rightarrow> string \<Rightarrow> 'w \<Rightarrow> (exn + tag list option) \<times> 'w"
    \<comment> \<open>the \<open>TagSet\<close> of the response, when the response has one\<close>
  s3_put_object_tagging :: "string option \<Rightarrow> string \<Rightarrow> tag list \<Rightarrow> 'w \<Rightarrow> (exn + unit) \<times> 'w"
  os_makedirs :: "string \<Rightarrow> 'w \<Rightarrow> (exn + unit) \<times> 'w"
  os_remove :: "string \<Rightarrow> 'w \<Rightarrow> (exn + unit) \<times> 'w"
  subprocess_run :: "string \<Rightarrow> 'w \<Rightarrow> (exn + int \<times> string \<times> string) \<times> 'w"
    \<comment> \<open>\<open>run_command\<close> (lines 13-15): exit status, stdout, stderr\<close>

datatype call =
    Paginate "string option" string
  | DownloadFile "string option" string string
  | CopyObject "string option" "string option" string
  | DeleteObject "string option" string
  | GetObjectTagging "string option" string
  | PutObjectTagging "string option" string "tag list"
  | Makedirs string
  | Remove string
  | RunCommand string
  | Print string

text \<open>
  The state threaded through the handler: the outside world, the calls made so far in
  order, and the local variables of \<open>handler\<close> that its loops and its exception
  handler read and write.
\<close>

record 'w state =
  world :: 'w
  trace :: "call list"
  files_to_process :: "(string \<times> int) list"  \<comment> \<open>a dict, in insertion order\<close>
  folder_keys_to_move :: "string list"
  scan_results_map :: "(string \<times> verdict) list"  \<comment> \<open>a dict, in insertion order\<close>
  is_batch_infected_or_error :: bool

type_synonym ('w, 'a) prog = "'w state \<Rightarrow> (exn + 'a) \<times> 'w state"

definition and_then :: "('w, 'a) prog \<Rightarrow> ('a \<Rightarrow> ('w, 'b) prog) \<Rightarrow> ('w, 'b) prog" where
  \<comment> \<open>sequencing: an exception skips the rest\<close>
  "and_then m f s = (case m s of (Inl e, s') \<Rightarrow> (Inl e, s') | (Inr x, s') \<Rightarrow> f x s')"

definition try_except :: "('w, 'a) prog \<Rightarrow> (exn \<Rightarrow> ('w, 'a) prog) \<Rightarrow> ('w, 'a) prog" where
  \<comment> \<open>\<open>try: m except Exception as e: h e\<close>\<close>
  "try_except m h s = (case m s of (Inl e, s') \<Rightarrow> h e s' | (Inr x, s') \<Rightarrow> (Inr x, s'))"

fun for_each :: "('a \<Rightarrow> ('w, unit) prog) \<Rightarrow> 'a list \<Rightarrow> ('w, unit) prog" where
  \<comment> \<open>\<open>for x in xs: f x\<close>\<close>
  "for_each f [] s = (Inr (), s)"
| "for_each f (x # xs) s =
     (case f x s of (Inl e, s') \<Rightarrow> (Inl e, s') | (Inr u, s') \<Rightarrow> for_each f xs s')"

definition return :: "'a \<Rightarrow> ('w, 'a) prog" where
  "return x s = (Inr x, s)"

definition raise :: "exn \<Rightarrow> ('w, 'a) prog" where
  "raise e s = (Inl e, s)"

definition modify :: "('w state \<Rightarrow> 'w state) \<Rightarrow> ('w, unit) prog" where
  \<comment> \<open>an assignment to local variables\<close>
  "modify f s = (Inr (), f s)"

definition perform :: "call \<Rightarrow> ('w \<Rightarrow> 'r \<times> 'w) \<Rightarrow> 'w state \<Rightarrow> 'r \<times> 'w state" where
  \<comment> \<open>a call to the platform, recorded in the trace\<close>
  "perform c f s =
     (fst (f (world s)), s\<lparr>world := snd (f (world s)), trace := trace s @ [c]\<rparr>)"

definition print :: "string \<Rightarrow> ('w, unit) prog" where
  "print msg s = (Inr (), s\<lparr>trace := trace s @ [Print msg]\<rparr>)"

definition copy_object :: "'w platform \<Rightarrow> string option \<Rightarrow> string option \<Rightarrow> string \<Rightarrow> ('w, unit) prog" where
  "copy_object pf bucket src key = perform (CopyObject bucket src key) (s3_copy_object pf bucket src key)"

definition delete_object :: "'w platform \<Rightarrow> string option \<Rightarrow> string \<Rightarrow> ('w, unit) prog" where
  "delete_object pf bucket key = perform (DeleteObject bucket key) (s3_delete_object pf bucket key)"

definition get_object_tagging :: "'w platform \<Rightarrow> string option \<Rightarrow> string \<Rightarrow> ('w, tag list option) prog" where
  "get_object_tagging pf bucket key =
     perform (GetObjectTagging bucket key) (s3_get_object_tagging pf bucket key)"

definition put_object_tagging :: "'w platform \<Rightarrow> string option \<Rightarrow> string \<Rightarrow> tag list \<Rightarrow> ('w, unit) prog" where
  "put_object_tagging pf bucket key tagset =
     perform (PutObjectTagging bucket key tagset) (s3_put_object_tagging pf bucket key tagset)"

definition download_file :: "'w platform \<Rightarrow> string option \<Rightarrow> string \<Rightarrow> string \<Rightarrow> ('w, unit) prog" where
  "download_file pf bucket key path =
     perform (DownloadFile bucket key path) (s3_download_file pf bucket key path)"

definition makedirs :: "'w platform \<Rightarrow> string \<Rightarrow> ('w, unit) prog" where
  "makedirs pf path = perform (Makedirs path) (os_makedirs pf path)"

definition remove :: "'w platform \<Rightarrow> string \<Rightarrow> ('w, unit) prog" where
  "remove pf path = perform (Remove path) (os_remove pf path)"

definition run_command :: "'w platform \<Rightarrow> string \<Rightarrow> ('w, int \<times> string \<times> string) prog" where
  "run_command pf command = perform (RunCommand command) (subprocess_run pf command)"

definition str_opt :: "string option \<Rightarrow> string" where
  \<comment> \<open>how an f-string renders a value that is a string or \<open>None\<close>\<close>
  "str_opt x = (case x of None \<Rightarrow> ''None'' | Some v \<Rightarrow> v)"

section \<open>\<open>run_scan\<close>, \<open>update_tags\<close> and \<open>move_and_tag_files\<close>\<close>

definition run_scan :: "'w platform \<Rightarrow> string \<Rightarrow> ('w, verdict) prog" where
  \<comment> \<open>lines 66-97\<close>
  "run_scan pf file_path =
     and_then (run_command pf
        (''clamscan --database=/tmp/clamav/database '' @ [CHR 0x22] @ file_path @ [CHR 0x22]))
       (\<lambda>r. case r of (exit_code, stdout, stderr) \<Rightarrow>
          and_then (print stdout) (\<lambda>_.
          and_then (if stderr \<noteq> [] then print (''ClamAV stderr: '' @ stderr) else return ()) (\<lambda>_.
          (case scan_verdict (exit_code, stdout, stderr) of
             Inl e \<Rightarrow> raise e
           | Inr v \<Rightarrow> return v))))"

definition read_tags :: "'w platform \<Rightarrow> string option \<Rightarrow> string \<Rightarrow> ('w, tag list) prog" where
  \<comment> \<open>lines 105-113: only a \<open>ClientError\<close> is caught\<close>
  "read_tags pf bucket_name object_key =
     try_except
       (and_then (get_object_tagging pf bucket_name object_key)
          (\<lambda>response. return (case response of None \<Rightarrow> [] | Some tagset \<Rightarrow> tagset)))
       (\<lambda>e. case e of
          ClientError code msg \<Rightarrow>
            if code = ''NoSuchTaggingSet'' then return []
            else and_then (print (''Failed to get tags for '' @ object_key @ '': '' @ msg))
                   (\<lambda>_. return [])
        | OtherError msg \<Rightarrow> raise e)"

definition update_tags ::
  "'w platform \<Rightarrow> string option \<Rightarrow> string \<Rightarrow> string \<Rightarrow> string option \<Rightarrow> ('w, unit) prog" where
  \<comment> \<open>lines 99-135\<close>
  "update_tags pf bucket_name object_key status detail =
     and_then (read_tags pf bucket_name object_key)
       (\<lambda>tags. put_object_tagging pf bucket_name object_key
                  (tags_to_keep tags (additional_tags (scan_time pf) status detail)))"

definition move_error_line :: "string \<Rightarrow> string \<Rightarrow> string \<Rightarrow> string" where
  \<comment> \<open>lines 168-171: the line printed for a \<open>ClientError\<close> with this code and text\<close>
  "move_error_line object_key code msg =
     (if code \<in> {''404'', ''NoSuchKey''}
      then ''File '' @ object_key @ '' was already processed by a concurrent invocation.''
      else ''FATAL: Could not move or tag '' @ object_key @ ''. Error: '' @ msg)"

definition move_one ::
  "'w platform \<Rightarrow> string \<Rightarrow> string option \<Rightarrow> string \<times> verdict \<Rightarrow> ('w, unit) prog" where
  \<comment> \<open>lines 149-172, the body of the loop: only a \<open>ClientError\<close> is caught (the
      traceback that line 172 writes to stderr is not modelled)\<close>
  "move_one pf landing_bucket_name destination_bucket entry =
     (case entry of (object_key, status, detail) \<Rightarrow>
        try_except
          (and_then (print (''Moving '' @ object_key @ '' to '' @ str_opt destination_bucket
                            @ '' with status: '' @ status)) (\<lambda>_.
           and_then (copy_object pf destination_bucket (Some landing_bucket_name) object_key) (\<lambda>_.
           and_then (delete_object pf (Some landing_bucket_name) object_key) (\<lambda>_.
           update_tags pf destination_bucket object_key status detail))))
          (\<lambda>e. case e of
             ClientError code msg \<Rightarrow> print (move_error_line object_key code msg)
           | OtherError msg \<Rightarrow> raise e))"

definition move_and_tag_files ::
  "'w platform \<Rightarrow> string option \<Rightarrow> (string \<times> verdict) list \<Rightarrow> ('w, unit) prog" where
  \<comment> \<open>lines 137-172; \<open>os.environ[...]\<close> raises \<open>KeyError\<close> for an unset variable\<close>
  "move_and_tag_files pf destination_bucket results =
     (case environ pf ''LANDING_BUCKET_NAME'' of
        None \<Rightarrow> raise (OtherError ([CHR 0x27] @ ''LANDING_BUCKET_NAME'' @ [CHR 0x27]))
      | Some landing_bucket_name \<Rightarrow>
          for_each (move_one pf landing_bucket_name destination_bucket) results)"

section \<open>The handler in scan mode (lines 194-334)\<close>

text \<open>
  The events that the model covers, by what lines 207-213 do with them. The shape check
  tests membership and subscripts values without testing their types first, so on an
  event such as \<open>None\<close> or \<open>{"Records": [5]}\<close> evaluating it raises a \<open>TypeError\<close>, and on
  an event such as \<open>{"Records": [{"s3": {"object": "a key"}}]}\<close> the check passes and the
  subscript of line 213 raises one; both are raised inside the outer \<open>try\<close>. On every such
  event the lookup of line 317 meets the same value: its \<open>.get\<close> raises an
  \<open>AttributeError\<close>, which line 319 passes over. Events whose key is not a string are
  outside the model.
\<close>

datatype event =
    Ignored  \<comment> \<open>the shape check of lines 207-209 holds and raises nothing, as on \<open>{}\<close>\<close>
  | Ill_typed string  \<comment> \<open>lines 207-213 raise a \<open>TypeError\<close>, with this \<open>str(e)\<close>\<close>
  | S3Event string  \<comment> \<open>a well-shaped event, with \<open>event["Records"][0]["s3"]["object"]["key"]\<close>\<close>

type_synonym response = "int \<times> string"  \<comment> \<open>\<open>statusCode\<close> and the \<open>message\<close> of the body\<close>

definition FIVE_GB :: int where
  "FIVE_GB = 5 * 1024 * 1024 * 1024"

definition add_object :: "string \<times> int \<Rightarrow> 'w state \<Rightarrow> 'w state" where
  \<comment> \<open>lines 226-229\<close>
  "add_object obj s =
     (case obj of (key, sz) \<Rightarrow>
        if \<not> endswith key ''/''
        then s\<lparr>files_to_process := AList.update key sz (files_to_process s)\<rparr>
        else s\<lparr>folder_keys_to_move := folder_keys_to_move s @ [key]\<rparr>)"

definition add_page :: "page \<Rightarrow> 'w state \<Rightarrow> 'w state" where
  \<comment> \<open>lines 224-229\<close>
  "add_page pg s = (case pg of None \<Rightarrow> s | Some contents \<Rightarrow> fold add_object contents s)"

definition list_batch :: "'w platform \<Rightarrow> string option \<Rightarrow> string \<Rightarrow> ('w, unit) prog" where
  \<comment> \<open>lines 222-229: the pages yielded are processed, then the exception that ended the
      iteration, if any, is raised\<close>
  "list_batch pf landing_bucket batch_prefix s =
     (case perform (Paginate landing_bucket batch_prefix) (s3_paginate pf landing_bucket batch_prefix) s of
        ((pages, err), s1) \<Rightarrow>
          (case err of
             None \<Rightarrow> (Inr (), fold add_page pages s1)
           | Some e \<Rightarrow> (Inl e, fold add_page pages s1)))"

definition definition_download :: "'w platform \<Rightarrow> ('w, unit) prog" where
  \<comment> \<open>lines 56-64\<close>
  "definition_download pf =
     and_then (makedirs pf ''/tmp/clamav/database'') (\<lambda>_.
     (case environ pf ''CLAMAV_DEFINITON_BUCKET_NAME'' of
        None \<Rightarrow> raise (OtherError ''CLAMAV_DEFINITON_BUCKET_NAME environment variable not set.'')
      | Some bucket_name \<Rightarrow>
          if bucket_name = []
          then raise (OtherError ''CLAMAV_DEFINITON_BUCKET_NAME environment variable not set.'')
          else
            and_then (download_file pf (Some bucket_name) ''clamav.tar.gz''
                        ''/tmp/clamav/clamav.tar.gz'') (\<lambda>_.
            and_then (print ''Successfully downloaded ClamAV definitions from S3.'') (\<lambda>_.
            and_then (run_command pf
              ''tar --extract --gzip --verbose --file=/tmp/clamav/clamav.tar.gz -C /tmp/clamav/database'') (\<lambda>_.
            print ''Successfully extracted ClamAV definitions.'')))))"

definition set_result :: "string \<Rightarrow> verdict \<Rightarrow> 'w state \<Rightarrow> 'w state" where
  \<comment> \<open>\<open>scan_results_map[object_key] = v\<close>\<close>
  "set_result object_key v s =
     s\<lparr>scan_results_map := AList.update object_key v (scan_results_map s)\<rparr>"

definition set_flag :: "'w state \<Rightarrow> 'w state" where
  \<comment> \<open>\<open>is_batch_infected_or_error = True\<close>\<close>
  "set_flag s = s\<lparr>is_batch_infected_or_error := True\<rparr>"

definition scan_one :: "'w platform \<Rightarrow> string option \<Rightarrow> string \<Rightarrow> ('w, unit) prog" where
  \<comment> \<open>lines 251-278, the body of the scan loop (the traceback of line 276 is not modelled)\<close>
  "scan_one pf landing_bucket object_key =
     try_except
       (if endswith object_key ''_commit.json''
        then modify (set_result object_key (''clean'', None))
        else
          and_then (print (''Scanning file: '' @ object_key)) (\<lambda>_.
          and_then (download_file pf landing_bucket object_key
                      (''/tmp/clamav/scan/'' @ basename object_key)) (\<lambda>_.
          and_then (run_scan pf (''/tmp/clamav/scan/'' @ basename object_key)) (\<lambda>v.
          and_then (modify (set_result object_key v)) (\<lambda>_.
          and_then
            (if fst v = ''infected'' then
               and_then (print (''INFECTED: '' @ object_key @ '', Virus: '' @ str_opt (snd v)))
                 (\<lambda>_. modify set_flag)
             else if fst v = ''error'' then
               and_then (print (''ERROR: '' @ object_key @ '' during scan, Detail: ''
                                @ str_opt (snd v)))
                 (\<lambda>_. modify set_flag)
             else print (''CLEAN: '' @ object_key)) (\<lambda>_.
          remove pf (''/tmp/clamav/scan/'' @ basename object_key)))))))
       (\<lambda>e.
          and_then (print (''ERROR processing '' @ object_key @ '': '' @ str_exn e)) (\<lambda>_.
          and_then (modify (set_result object_key (''error'', Some (str_exn e)))) (\<lambda>_.
          modify set_flag)))"

definition scan_files :: "'w platform \<Rightarrow> string option \<Rightarrow> ('w, unit) prog" where
  \<comment> \<open>lines 250-278\<close>
  "scan_files pf landing_bucket s =
     for_each (scan_one pf landing_bucket) (map fst (files_to_process s)) s"

definition oversize_verdict :: verdict where
  \<comment> \<open>the verdict of line 284\<close>
  "oversize_verdict = (''error'', Some ''File exceeds 5GB copy limit'')"

definition sweep_one :: "string \<times> int \<Rightarrow> ('w, unit) prog" where
  \<comment> \<open>lines 282-285\<close>
  "sweep_one item =
     (case item of (object_key, sz) \<Rightarrow>
        if sz > FIVE_GB then
          and_then (print (''ERROR: File '' @ object_key @ '' size ('' @ str_int sz
                           @ '') exceeds 5GB copy limit.'')) (\<lambda>_.
          and_then (modify (set_result object_key oversize_verdict)) (\<lambda>_. modify set_flag))
        else return ())"

definition size_sweep :: "('w, unit) prog" where
  \<comment> \<open>lines 280-285\<close>
  "size_sweep s =
     (if \<not> is_batch_infected_or_error s then for_each sweep_one (files_to_process s) s
      else (Inr (), s))"

definition move_folder ::
  "'w platform \<Rightarrow> string option \<Rightarrow> string option \<Rightarrow> string \<Rightarrow> string \<Rightarrow> ('w, unit) prog" where
  \<comment> \<open>lines 291-295 and 325-329, which differ in the first line printed\<close>
  "move_folder pf landing_bucket quarantine_bucket moving key =
     and_then (print (moving @ key @ '' to quarantine'')) (\<lambda>_.
     try_except
       (and_then (copy_object pf quarantine_bucket landing_bucket key) (\<lambda>_.
        delete_object pf landing_bucket key))
       (\<lambda>folder_e. print (''Could not move folder '' @ key @ '' to quarantine: ''
                           @ str_exn folder_e)))"

definition delete_folder :: "'w platform \<Rightarrow> string option \<Rightarrow> string \<Rightarrow> ('w, unit) prog" where
  \<comment> \<open>lines 236-238 and 301-303\<close>
  "delete_folder pf landing_bucket key =
     and_then (print (''Deleting clean folder object: '' @ key)) (\<lambda>_.
     try_except (delete_object pf landing_bucket key)
       (\<lambda>folder_e. print (''Could not delete folder object '' @ key @ '': '' @ str_exn folder_e)))"

definition route_batch ::
  "'w platform \<Rightarrow> string option \<Rightarrow> string option \<Rightarrow> string option \<Rightarrow> ('w, unit) prog" where
  \<comment> \<open>lines 287-303\<close>
  "route_batch pf landing_bucket processed_bucket quarantine_bucket s =
     (if is_batch_infected_or_error s then
        and_then (print ''Batch contains infected, errored, or oversized files. Moving all files to quarantine.'') (\<lambda>_.
        and_then (\<lambda>s. move_and_tag_files pf quarantine_bucket (scan_results_map s) s) (\<lambda>_.
        (\<lambda>s. for_each (move_folder pf landing_bucket quarantine_bucket ''Moving folder '')
                (folder_keys_to_move s) s))) s
      else
        and_then (print ''Batch is clean and within size limits. Moving all files to processed.'') (\<lambda>_.
        and_then (\<lambda>s. move_and_tag_files pf processed_bucket (scan_results_map s) s) (\<lambda>_.
        (\<lambda>s. for_each (delete_folder pf landing_bucket) (folder_keys_to_move s) s))) s)"

definition hex_digit :: "nat \<Rightarrow> char" where
  "hex_digit n = ''0123456789abcdef'' ! (n mod 16)"

definition repr_char :: "char \<Rightarrow> char \<Rightarrow> string" where
  \<comment> \<open>one character of \<open>repr(s)\<close> between the quotes \<open>q\<close>: the quote and the backslash
      are escaped, tab, newline and carriage return have their letter, and the other
      non-printable code points below 256 are written as a backslash, \<open>x\<close> and two
      hexadecimal digits\<close>
  "repr_char q c =
     (let n = (of_char c :: nat) in
      if c = q \<or> n = 92 then [CHR 0x5C, c]
      else if n = 9 then [CHR 0x5C, CHR ''t'']
      else if n = 10 then [CHR 0x5C, CHR ''n'']
      else if n = 13 then [CHR 0x5C, CHR ''r'']
      else if n < 32 \<or> n = 127 \<or> (128 \<le> n \<and> n \<le> 160) \<or> n = 173
      then [CHR 0x5C, CHR ''x'', hex_digit (n div 16), hex_digit (n mod 16)]
      else [c])"

definition repr_str :: "string \<Rightarrow> string" where
  \<comment> \<open>\<open>repr(s)\<close>: single quotes, unless \<open>s\<close> holds a single quote and no double quote\<close>
  "repr_str s =
     (let q = (if CHR 0x27 \<in> set s \<and> CHR 0x22 \<notin> set s then CHR 0x22 else CHR 0x27)
      in [q] @ concat (map (repr_char q) s) @ [q])"

definition repr_keys :: "string list \<Rightarrow> string" where
  \<comment> \<open>how the f-string of line 242 renders the list of keys: \<open>str\<close> of a list is the
      \<open>repr\<close> of its elements, separated by a comma and a space, in brackets\<close>
  "repr_keys ks =
     ''['' @ concat (map (\<lambda>(i, k). (if i = 0 then [] else '', '') @ repr_str k)
                      (enumerate 0 ks)) @ '']''"

definition empty_batch ::
  "'w platform \<Rightarrow> string option \<Rightarrow> string option \<Rightarrow> string \<Rightarrow> string \<Rightarrow> ('w, response) prog" where
  \<comment> \<open>lines 232-239\<close>
  "empty_batch pf landing_bucket processed_bucket batch_prefix triggering_object_key =
     and_then (print (''No data files found in batch prefix: '' @ batch_prefix
                      @ ''. Cleaning up commit file and folders.'')) (\<lambda>_.
     and_then (modify (\<lambda>s. s\<lparr>scan_results_map := [(triggering_object_key, (''clean'', None))]\<rparr>)) (\<lambda>_.
     and_then (\<lambda>s. move_and_tag_files pf processed_bucket (scan_results_map s) s) (\<lambda>_.
     and_then (\<lambda>s. for_each (delete_folder pf landing_bucket) (folder_keys_to_move s) s) (\<lambda>_.
     return (200, ''Empty batch processed successfully'')))))"

definition scan_batch ::
  "'w platform \<Rightarrow> string option \<Rightarrow> string option \<Rightarrow> string option \<Rightarrow> string \<Rightarrow> ('w, response) prog" where
  \<comment> \<open>lines 242-303, then the return of line 334\<close>
  "scan_batch pf landing_bucket processed_bucket quarantine_bucket batch_prefix =
     and_then (\<lambda>s. print (''Processing batch. Prefix: '' @ batch_prefix @ ''. Files: ''
                        @ repr_keys (map fst (files_to_process s))) s) (\<lambda>_.
     and_then (makedirs pf ''/tmp/clamav/scan'') (\<lambda>_.
     and_then (definition_download pf) (\<lambda>_.
     and_then (modify (\<lambda>s. s\<lparr>scan_results_map := [], is_batch_infected_or_error := False\<rparr>)) (\<lambda>_.
     and_then (scan_files pf landing_bucket) (\<lambda>_.
     and_then size_sweep (\<lambda>_.
     and_then (route_batch pf landing_bucket processed_bucket quarantine_bucket) (\<lambda>_.
     return (200, ''Batch processed successfully''))))))))"

definition process_batch :: "'w platform \<Rightarrow> event \<Rightarrow> ('w, response) prog" where
  \<comment> \<open>lines 206-303, the body of the outer \<open>try\<close>\<close>
  "process_batch pf ev =
     (case ev of
        Ignored \<Rightarrow>
          and_then (print ''[WARN] Received event does not match expected S3 structure. Ignoring.'')
            (\<lambda>_. return (200, ''Event ignored, invalid structure.''))
      | Ill_typed msg \<Rightarrow> raise (OtherError msg)
      | S3Event triggering_object_key \<Rightarrow>
          if \<not> endswith triggering_object_key ''_commit.json'' then
            and_then (print (''Ignoring non-commit-file trigger: '' @ triggering_object_key))
              (\<lambda>_. return (200, ''Trigger ignored.''))
          else
            and_then (list_batch pf (environ pf ''LANDING_BUCKET_NAME'')
                        (if dirname triggering_object_key \<noteq> []
                         then dirname triggering_object_key @ ''/'' else [])) (\<lambda>_.
            (\<lambda>s. if files_to_process s = [] then
                    empty_batch pf (environ pf ''LANDING_BUCKET_NAME'')
                      (environ pf ''PROCESSED_BUCKET_NAME'')
                      (if dirname triggering_object_key \<noteq> []
                       then dirname triggering_object_key @ ''/'' else [])
                      triggering_object_key s
                  else
                    scan_batch pf (environ pf ''LANDING_BUCKET_NAME'')
                      (environ pf ''PROCESSED_BUCKET_NAME'')
                      (environ pf ''QUARANTINE_BUCKET_NAME'')
                      (if dirname triggering_object_key \<noteq> []
                       then dirname triggering_object_key @ ''/'' else []) s)))"

definition error_results :: "string \<Rightarrow> string list \<Rightarrow> (string \<times> verdict) list" where
  \<comment> \<open>lines 310-313\<close>
  "error_results msg keys =
     fold (\<lambda>key m. if key \<notin> set (map fst m)
                    then AList.update key (''error'', Some msg) m else m) keys []"

definition trigger_key :: "event \<Rightarrow> string option" where
  \<comment> \<open>lines 316-319: the key that the lookup finds, \<open>None\<close> when the lookup raises and
      is passed over. The handler is never entered on an ignored event, and on the other
      events the lookup never falls back on its default \<open>unknown-trigger-key\<close>.\<close>
  "trigger_key ev = (case ev of S3Event key \<Rightarrow> Some key | _ \<Rightarrow> None)"

definition system_error :: "'w platform \<Rightarrow> event \<Rightarrow> exn \<Rightarrow> ('w, response) prog" where
  \<comment> \<open>lines 305-331, the handler of the outer \<open>try\<close>\<close>
  "system_error pf ev e =
     and_then (print (''A system error occurred during batch processing: '' @ str_exn e)) (\<lambda>_.
     and_then (print ''Moving all known batch files to quarantine due to system error.'') (\<lambda>_.
     and_then (\<lambda>s. move_and_tag_files pf (environ pf ''QUARANTINE_BUCKET_NAME'')
                      (if error_results (str_exn e) (map fst (files_to_process s)) = []
                       then (case trigger_key ev of
                               Some key \<Rightarrow> [(key, (''error'', Some (str_exn e)))]
                             | None \<Rightarrow> [])
                       else error_results (str_exn e) (map fst (files_to_process s))) s) (\<lambda>_.
     and_then (\<lambda>s. for_each (move_folder pf (environ pf ''LANDING_BUCKET_NAME'')
                               (environ pf ''QUARANTINE_BUCKET_NAME'') ''Moving error folder '')
                      (folder_keys_to_move s) s) (\<lambda>_.
     return (500, ''An error occurred: '' @ str_exn e)))))"

definition handler_scan :: "'w platform \<Rightarrow> event \<Rightarrow> ('w, response) prog" where
  \<comment> \<open>lines 194-334: \<open>handler\<close> when \<open>MODE\<close> is \<open>scan\<close>\<close>
  "handler_scan pf ev =
     and_then (print ''Running in scan mode...'') (\<lambda>_.
     and_then (modify (\<lambda>s. s\<lparr>files_to_process := [], folder_keys_to_move := []\<rparr>)) (\<lambda>_.
     try_except (process_batch pf ev) (system_error pf ev)))"

section \<open>A scripted platform for concrete runs\<close>

text \<open>
  A platform whose answers are fixed in advance: the pages of the listing, the
  exception (if any) that downloading, copying or deleting a given key raises, the answer
  to reading the tags of a key, and the result of each command. Its world is the list of local files present: a download that
  succeeds creates its target, \<open>os.remove\<close> deletes it.
\<close>

definition scripted ::
  "(string \<rightharpoonup> string) \<Rightarrow> page list \<Rightarrow> (string \<Rightarrow> exn option) \<Rightarrow>
   (string \<Rightarrow> exn + int \<times> string \<times> string) \<Rightarrow> (string \<Rightarrow> exn option) \<Rightarrow>
   (string \<Rightarrow> exn option) \<Rightarrow> (string \<Rightarrow> exn + tag list option) \<Rightarrow> string list platform" where
  "scripted env pages download_fault command copy_fault delete_fault tagging =
     \<lparr> environ = env,
       scan_time = ''2024-05-01T12:00:00'',
       s3_paginate = (\<lambda>bucket batch_prefix w. ((pages, None), w)),
       s3_download_file = (\<lambda>bucket key path w.
          case download_fault key of Some e \<Rightarrow> (Inl e, w) | None \<Rightarrow> (Inr (), path # w)),
       s3_copy_object = (\<lambda>bucket src key w.
          case copy_fault key of Some e \<Rightarrow> (Inl e, w) | None \<Rightarrow> (Inr (), w)),
       s3_delete_object = (\<lambda>bucket key w.
          case delete_fault key of Some e \<Rightarrow> (Inl e, w) | None \<Rightarrow> (Inr (), w)),
       s3_get_object_tagging = (\<lambda>bucket key w. (tagging key, w)),
       s3_put_object_tagging = (\<lambda>bucket key tagset w. (Inr (), w)),
       os_makedirs = (\<lambda>path w. (Inr (), w)),
       os_remove = (\<lambda>path w.
          if path \<in> set w then (Inr (), removeAll path w)
          else (Inl (OtherError (''[Errno 2] No such file or directory: '' @ path)), w)),
       subprocess_run = (\<lambda>cmd w. (command cmd, w)) \<rparr>"

definition buckets :: "string \<rightharpoonup> string" where
  "buckets =
     [''LANDING_BUCKET_NAME'' \<mapsto> ''landing'', ''PROCESSED_BUCKET_NAME'' \<mapsto> ''processed'',
      ''QUARANTINE_BUCKET_NAME'' \<mapsto> ''quarantine'',
      ''CLAMAV_DEFINITON_BUCKET_NAME'' \<mapsto> ''definitions'']"

definition start :: "string list state" where
  "start = \<lparr> world = [], trace = [], files_to_process = [], folder_keys_to_move = [],
             scan_results_map = [], is_batch_infected_or_error = False \<rparr>"

section \<open>Observations on a run\<close>

fun copied :: "call \<Rightarrow> (string option \<times> string) list" where
  \<comment> \<open>the destination bucket and key of a copy\<close>
  "copied (CopyObject bucket src key) = [(bucket, key)]"
| "copied c = []"

definition copies :: "call list \<Rightarrow> (string option \<times> string) list" where
  \<comment> \<open>the copies of a trace, in order: destination bucket and key\<close>
  "copies tr = concat (map copied tr)"

definition storage_errors_only :: "'w platform \<Rightarrow> bool" where
  \<comment> \<open>every exception that copying, deleting and tagging raise is a storage error
      (a \<open>ClientError\<close>, which carries an error code)\<close>
  "storage_errors_only pf \<longleftrightarrow>
     (\<forall>b src k w e. fst (s3_copy_object pf b src k w) = Inl e \<longrightarrow> (\<exists>c m. e = ClientError c m)) \<and>
     (\<forall>b k w e. fst (s3_delete_object pf b k w) = Inl e \<longrightarrow> (\<exists>c m. e = ClientError c m)) \<and>
     (\<forall>b k w e. fst (s3_get_object_tagging pf b k w) = Inl e \<longrightarrow> (\<exists>c m. e = ClientError c m)) \<and>
     (\<forall>b k ts w e. fst (s3_put_object_tagging pf b k ts w) = Inl e
        \<longrightarrow> (\<exists>c m. e = ClientError c m))"

definition flagged :: "(string \<times> verdict) list \<Rightarrow> bool" where
  \<comment> \<open>some verdict of the map is infected or error\<close>
  "flagged m \<longleftrightarrow> (\<exists>k v. (k, v) \<in> set m \<and> (fst v = ''infected'' \<or> fst v = ''error''))"

definition swept :: "(string \<times> int) list \<Rightarrow> (string \<times> verdict) list \<Rightarrow> (string \<times> verdict) list" where
  \<comment> \<open>the result map after the size sweep of lines 281-285 over these files\<close>
  "swept items m =
     fold (\<lambda>item m. if snd item > FIVE_GB
                     then AList.update (fst item) oversize_verdict m
                     else m) items m"

fun fetched :: "call \<Rightarrow> string list" where
  \<comment> \<open>the local path of a download, the command line of a command\<close>
  "fetched (DownloadFile bucket key path) = [path]"
| "fetched (RunCommand command) = [command]"
| "fetched c = []"

definition fetches :: "call list \<Rightarrow> string list" where
  \<comment> \<open>the downloads and commands of a trace, in order\<close>
  "fetches tr = concat (map fetched tr)"


definition tagging_down :: "string list platform" where
  \<comment> \<open>reading the tags of any object fails with an internal error of the store\<close>
  "tagging_down = scripted buckets [] (\<lambda>k. None) (\<lambda>c. Inr (0, [], [])) (\<lambda>k. None) (\<lambda>k. None)
     (\<lambda>k. Inl (ClientError ''InternalError'' ''We encountered an internal error.''))"

definition clean_batch :: "string list platform" where
  \<comment> \<open>a batch with one clean file and one folder placeholder\<close>
  "clean_batch = scripted buckets
     [Some [(''p/sub/'', 0), (''p/a.txt'', 10), (''p/_commit.json'', 2)]]
     (\<lambda>k. None) (\<lambda>c. Inr (0, [], [])) (\<lambda>k. None) (\<lambda>k. None) (\<lambda>k. Inr (Some []))"

definition big_marker :: "string list platform" where
  \<comment> \<open>a batch whose only file is a commit marker of 5 GiB and one byte\<close>
  "big_marker = scripted buckets
     [Some [(''p/_commit.json'', 5368709121)]]
     (\<lambda>k. None) (\<lambda>c. Inr (0, [], [])) (\<lambda>k. None) (\<lambda>k. None) (\<lambda>k. Inr (Some []))"

definition no_definitions :: "string list platform" where
  \<comment> \<open>a batch with the commit marker and a folder placeholder, and no signature
      archive to download\<close>
  "no_definitions = scripted buckets
     [Some [(''p/sub/'', 0), (''p/_commit.json'', 2)]]
     (\<lambda>k. if k = ''clamav.tar.gz'' then Some (ClientError ''404'' ''Not Found'') else None)
     (\<lambda>c. Inr (0, [], [])) (\<lambda>k. None) (\<lambda>k. None) (\<lambda>k. Inr (Some []))"

definition scanner_fails :: "string list platform" where
  \<comment> \<open>a batch with one file, on which clamscan exits with status 2\<close>
  "scanner_fails = scripted buckets
     [Some [(''p/c.txt'', 10), (''p/_commit.json'', 2)]]
     (\<lambda>k. None)
     (\<lambda>c. if c = ''clamscan --database=/tmp/clamav/database '' @ [CHR 0x22]
                  @ ''/tmp/clamav/scan/c.txt'' @ [CHR 0x22]
          then Inr (2, [], ''LibClamAV Error: cli_loaddbdir: No supported database files found'')
          else Inr (0, [], []))
     (\<lambda>k. None) (\<lambda>k. None) (\<lambda>k. Inr (Some []))"

definition scan_faults :: "string list platform" where
  \<comment> \<open>downloading \<open>p/a.txt\<close> is denied, and clamscan exits with status 2 on \<open>b.txt\<close>\<close>
  "scan_faults = scripted buckets []
     (\<lambda>k. if k = ''p/a.txt'' then Some (ClientError ''AccessDenied'' ''Access Denied'') else None)
     (\<lambda>c. if c = ''clamscan --database=/tmp/clamav/database '' @ [CHR 0x22]
                  @ ''/tmp/clamav/scan/b.txt'' @ [CHR 0x22]
          then Inr (2, [], ''boom'') else Inr (0, [], []))
     (\<lambda>k. None) (\<lambda>k. None) (\<lambda>k. Inr (Some []))"

definition listed :: "(string \<times> int) list \<Rightarrow> string list state" where
  \<comment> \<open>the state at line 247 for these files: no results yet, the flag down\<close>
  "listed files = start\<lparr>files_to_process := files\<rparr>"

definition scanned :: "string list state" where
  \<comment> \<open>the state at line 287 for a batch of one clean file, the commit marker and one
      folder placeholder\<close>
  "scanned = start\<lparr>files_to_process := [(''p/a.txt'', 10), (''p/_commit.json'', 2)],
                   folder_keys_to_move := [''p/sub/''],
                   scan_results_map := [(''p/a.txt'', ''clean'', None),
                                        (''p/_commit.json'', ''clean'', None)]\<rparr>"

definition only_folders :: "string list platform" where
  \<comment> \<open>nothing is left under the prefix but one folder placeholder\<close>
  "only_folders = scripted buckets [Some [(''p/sub/'', 0)], None]
     (\<lambda>k. None) (\<lambda>c. Inr (0, [], [])) (\<lambda>k. None) (\<lambda>k. None) (\<lambda>k. Inr (Some []))"

definition only_marker :: "string list platform" where
  \<comment> \<open>a batch of the commit marker and one folder placeholder, no data file\<close>
  "only_marker = scripted buckets [Some [(''p/sub/'', 0), (''p/_commit.json'', 2)], None]
     (\<lambda>k. None) (\<lambda>c. Inr (0, [], [])) (\<lambda>k. None) (\<lambda>k. None) (\<lambda>k. Inr (Some []))"

section \<open>Tag merging: idempotence, preservation, sanitised error text\<close>

lemma replace_single: "replace s [a] [b] = map (\<lambda>c. if c = a then b else c) s"
  by (induction s) auto

lemma sanitised_no_breaks:
  "CHR 0x0A \<notin> set (replace (replace d [CHR 0x0A] '' '') [CHR 0x0D] '' '') \<and>
   CHR 0x0D \<notin> set (replace (replace d [CHR 0x0A] '' '') [CHR 0x0D] '' '')"
  by (auto simp: replace_single)

lemma additional_scan_error:
  assumes "(''scan-error'', v) \<in> set (additional_tags st status detail)"
  shows "length v \<le> 250 \<and> CHR 0x0A \<notin> set v \<and> CHR 0x0D \<notin> set v"
proof (cases detail)
  case None
  with assms show ?thesis by simp
next
  case (Some d)
  with assms have v: "v = take 250 (replace (replace d [CHR 0x0A] '' '') [CHR 0x0D] '' '')"
    by (auto split: if_splits)
  have "set v \<subseteq> set (replace (replace d [CHR 0x0A] '' '') [CHR 0x0D] '' '')"
    unfolding v by (rule set_take_subset)
  with sanitised_no_breaks [of d] show ?thesis
    unfolding v by auto
qed

lemma distinct_additional_keys: "distinct (map fst (additional_tags st status detail))"
  by (cases detail) auto

lemma additional_keys:
  "set (map fst (additional_tags st status detail))
     \<subseteq> {''scan-result'', ''scan-time'', ''virus-name'', ''scan-error''}"
  by (cases detail) auto

lemma tags_to_keep_idem: "tags_to_keep (tags_to_keep tags A) A = tags_to_keep tags A"
  by (simp add: tags_to_keep_def filter_empty_conv)

lemma tags_to_keep_distinct:
  "distinct (map fst tags) \<Longrightarrow> distinct (map fst A) \<Longrightarrow> distinct (map fst (tags_to_keep tags A))"
  by (auto simp: tags_to_keep_def distinct_map_filter)

lemma tags_to_keep_preserves:
  "t \<in> set tags \<Longrightarrow> fst t \<notin> set (map fst A) \<Longrightarrow> t \<in> set (tags_to_keep tags A)"
  by (simp add: tags_to_keep_def)

lemma tags_to_keep_overwrites:
  "k \<in> set (map fst A) \<Longrightarrow>
   filter (\<lambda>t. fst t = k) (tags_to_keep tags A) = filter (\<lambda>t. fst t = k) A"
  by (auto simp: tags_to_keep_def filter_empty_conv)

text \<open>
  C7. Merging the scan tags of one verdict into a tag set twice gives the same tag set
  as merging them once. When the existing tag set has no duplicate keys, neither has
  the result. Every existing tag whose key is not a scan-tag key is kept, and for a
  scan-tag key the result holds exactly the new entry: the old one is overwritten, not
  duplicated.
\<close>

theorem tag_merge_idempotent_preserving:
  "merged_tags st (merged_tags st tags status detail) status detail
     = merged_tags st tags status detail \<and>
   (distinct (map fst tags) \<longrightarrow> distinct (map fst (merged_tags st tags status detail))) \<and>
   (\<forall>t \<in> set tags. fst t \<notin> set (map fst (additional_tags st status detail))
        \<longrightarrow> t \<in> set (merged_tags st tags status detail)) \<and>
   (\<forall>k \<in> set (map fst (additional_tags st status detail)).
        filter (\<lambda>t. fst t = k) (merged_tags st tags status detail)
          = filter (\<lambda>t. fst t = k) (additional_tags st status detail))"
  unfolding merged_tags_def
  using tags_to_keep_idem tags_to_keep_distinct [OF _ distinct_additional_keys]
    tags_to_keep_preserves tags_to_keep_overwrites
  by blast

theorem tag_merge_idempotent_preserving_witness:
  "distinct (map fst [(''owner'', ''alice''), (''scan-result'', ''infected'')]) \<and>
   distinct (map fst (merged_tags ''T'' [(''owner'', ''alice''), (''scan-result'', ''infected'')]
                        ''clean'' None)) \<and>
   (''owner'', ''alice'') \<in> set (merged_tags ''T''
       [(''owner'', ''alice''), (''scan-result'', ''infected'')] ''clean'' None) \<and>
   filter (\<lambda>t. fst t = ''scan-result'')
     (merged_tags ''T'' [(''owner'', ''alice''), (''scan-result'', ''infected'')] ''clean'' None)
     = [(''scan-result'', ''clean'')]"
  using tag_merge_idempotent_preserving
    [of "''T''" "[(''owner'', ''alice''), (''scan-result'', ''infected'')]" "''clean''" None]
  by (simp add: merged_tags_def tags_to_keep_def)

text \<open>
  C8. The value that the tag merger computes for the \<open>scan-error\<close> tag has at most
  250 characters and contains neither a newline nor a carriage return, whatever the
  error detail. For a non-empty error detail the merged tag set has a \<open>scan-error\<close>
  tag, and its only value is that truncated, newline-free text.
\<close>

theorem scan_error_tag_sanitised:
  "((''scan-error'', v) \<in> set (additional_tags st status detail)
      \<longrightarrow> length v \<le> 250 \<and> CHR 0x0A \<notin> set v \<and> CHR 0x0D \<notin> set v) \<and>
   (d \<noteq> [] \<longrightarrow>
      (''scan-error'', take 250 (replace (replace d [CHR 0x0A] '' '') [CHR 0x0D] '' ''))
         \<in> set (merged_tags st tags ''error'' (Some d)) \<and>
      ((''scan-error'', v) \<in> set (merged_tags st tags ''error'' (Some d))
         \<longrightarrow> v = take 250 (replace (replace d [CHR 0x0A] '' '') [CHR 0x0D] '' '')
             \<and> length v \<le> 250 \<and> CHR 0x0A \<notin> set v \<and> CHR 0x0D \<notin> set v))"
proof (intro conjI impI)
  assume "(''scan-error'', v) \<in> set (additional_tags st status detail)"
  then show "length v \<le> 250" "CHR 0x0A \<notin> set v" "CHR 0x0D \<notin> set v"
    using additional_scan_error by blast+
next
  assume d: "d \<noteq> []"
  then show "(''scan-error'', take 250 (replace (replace d [CHR 0x0A] '' '') [CHR 0x0D] '' ''))
         \<in> set (merged_tags st tags ''error'' (Some d))"
    by (simp add: merged_tags_def tags_to_keep_def)
  assume "(''scan-error'', v) \<in> set (merged_tags st tags ''error'' (Some d))"
  with d have a: "(''scan-error'', v) \<in> set (additional_tags st ''error'' (Some d))"
    by (auto simp: merged_tags_def tags_to_keep_def)
  with d show "v = take 250 (replace (replace d [CHR 0x0A] '' '') [CHR 0x0D] '' '')"
    by simp
  from a show "length v \<le> 250" "CHR 0x0A \<notin> set v" "CHR 0x0D \<notin> set v"
    using additional_scan_error by blast+
qed

theorem scan_error_tag_sanitised_witness:
  "''a'' @ [CHR 0x0A] @ ''b'' \<noteq> [] \<and>
   (''scan-error'', ''a b'') \<in> set (merged_tags ''T'' [] ''error'' (Some (''a'' @ [CHR 0x0A] @ ''b''))) \<and>
   length ''a b'' \<le> 250 \<and> CHR 0x0A \<notin> set ''a b'' \<and> CHR 0x0D \<notin> set ''a b''"
  using scan_error_tag_sanitised
    [of "''a b''" "''T''" "''error''" "Some (''a'' @ [CHR 0x0A] @ ''b'')" "''a'' @ [CHR 0x0A] @ ''b''" "[]"]
  by (simp add: merged_tags_def tags_to_keep_def)

section \<open>The scan report\<close>

lemma split_colon_head:
  "CHR '':'' \<notin> set f \<Longrightarrow> split_str (f @ '': '' @ r) '': '' = f # split_str r '': ''"
  by (induction f) auto

lemma split_colon_none: "CHR '':'' \<notin> set s \<Longrightarrow> split_str s '': '' = [s]"
  by (induction s) auto

lemma replace_found_tail:
  "CHR '' '' \<notin> set v \<Longrightarrow> replace (v @ '' FOUND'') '' FOUND'' [] = v"
  by (induction v) auto

lemma not_space_D: "\<not> is_space (CHR ''D'')" "\<not> is_space (CHR '':'')"
  by (simp_all add: is_space_def)

lemma strip_report_line:
  "strip (f @ '': '' @ v @ '' FOUND'') = dropWhile is_space f @ '': '' @ v @ '' FOUND''"
proof -
  have a: "dropWhile is_space (f @ '': '' @ v @ '' FOUND'')
             = dropWhile is_space f @ '': '' @ v @ '' FOUND''"
    using dropWhile_append3 [of is_space "CHR '':''" f "'' '' @ v @ '' FOUND''"] not_space_D
    by simp
  have b: "rev (dropWhile is_space f @ '': '' @ v @ '' FOUND'')
             = CHR ''D'' # rev (dropWhile is_space f @ '': '' @ v @ '' FOUN'')"
    by simp
  show ?thesis unfolding strip_def a b using not_space_D(1) by simp
qed

lemma report_line_endswith: "endswith (strip (f @ '': '' @ v @ '' FOUND'')) '' FOUND''"
  unfolding strip_report_line endswith_def suffix_def
  by (rule exI [of _ "dropWhile is_space f @ '': '' @ v"]) simp

lemma find_virus_name_skip:
  "\<forall>l \<in> set pre. \<not> (endswith (strip l) '' FOUND'' \<and> 2 \<le> length (split_str l '': '')) \<Longrightarrow>
   find_virus_name (pre @ rest) d = find_virus_name rest d"
  by (induction pre) (auto split: list.splits)

lemma find_virus_name_hit:
  "endswith (strip line) '' FOUND'' \<Longrightarrow> split_str line '': '' = p0 # p1 # ps \<Longrightarrow>
   find_virus_name (line # rest) d = strip (replace p1 '' FOUND'' [])"
  by simp

lemma find_virus_name_report:
  assumes "CHR '':'' \<notin> set f" "CHR '':'' \<notin> set v" "CHR '' '' \<notin> set v"
  shows "find_virus_name ((f @ '': '' @ v @ '' FOUND'') # rest) d = strip v"
proof -
  have "CHR '':'' \<notin> set (v @ '' FOUND'')" using assms(2) by simp
  then have "split_str (f @ '': '' @ v @ '' FOUND'') '': '' = [f, v @ '' FOUND'']"
    using split_colon_head [OF assms(1), of "v @ '' FOUND''"] split_colon_none by simp
  then show ?thesis
    using find_virus_name_hit [OF report_line_endswith, of f v f "v @ '' FOUND''" "[]" rest d]
      replace_found_tail [OF assms(3)] by simp
qed

lemma run_scan_result:
  "fst (subprocess_run pf (''clamscan --database=/tmp/clamav/database '' @ [CHR 0x22]
                           @ file_path @ [CHR 0x22]) (world s)) = Inr r
   \<Longrightarrow> fst (run_scan pf file_path s) = scan_verdict r"
  by (cases r) (simp add: run_scan_def and_then_def run_command_def perform_def print_def
      return_def raise_def split: sum.splits prod.splits)

text \<open>
  What \<open>run_scan\<close> computes from the exit status, stdout and stderr of the scanner. A
  zero exit status gives the verdict clean. An exit status of one gives the verdict
  infected and never raises; the name is cut out of the first report line whose stripped
  text ends in the marker and that contains a colon-space, and it is \<open>Unknown\<close> when no
  line qualifies. For a report line \<open>path: NAME FOUND\<close> whose path and name contain no
  colon and whose name contains no space, the name returned is \<open>NAME\<close>. Any other exit
  status raises.
\<close>

lemma scan_verdict_cases:
  "(exit_code = 0 \<longrightarrow> scan_verdict (exit_code, out, err) = Inr (''clean'', None)) \<and>
   (exit_code = 1 \<longrightarrow> (\<exists>name. scan_verdict (exit_code, out, err) = Inr (''infected'', Some name))) \<and>
   (exit_code = 1 \<and> split_str out [CHR 0x0A] = pre @ line # rest \<and>
    (\<forall>l \<in> set pre. \<not> (endswith (strip l) '' FOUND'' \<and> 2 \<le> length (split_str l '': ''))) \<and>
    endswith (strip line) '' FOUND'' \<and> split_str line '': '' = p0 # p1 # ps
      \<longrightarrow> scan_verdict (exit_code, out, err)
            = Inr (''infected'', Some (strip (replace p1 '' FOUND'' [])))) \<and>
   (exit_code = 1 \<and> split_str out [CHR 0x0A] = pre @ (f @ '': '' @ v @ '' FOUND'') # rest \<and>
    (\<forall>l \<in> set pre. \<not> (endswith (strip l) '' FOUND'' \<and> 2 \<le> length (split_str l '': ''))) \<and>
    CHR '':'' \<notin> set f \<and> CHR '':'' \<notin> set v \<and> CHR '' '' \<notin> set v
      \<longrightarrow> scan_verdict (exit_code, out, err) = Inr (''infected'', Some (strip v))) \<and>
   (exit_code = 1 \<and>
    (\<forall>l \<in> set (split_str out [CHR 0x0A]).
        \<not> (endswith (strip l) '' FOUND'' \<and> 2 \<le> length (split_str l '': '')))
      \<longrightarrow> scan_verdict (exit_code, out, err) = Inr (''infected'', Some ''Unknown'')) \<and>
   (exit_code \<noteq> 0 \<and> exit_code \<noteq> 1
      \<longrightarrow> scan_verdict (exit_code, out, err)
            = Inl (OtherError (''ClamAV scan error. Exit code: '' @ str_int exit_code
                               @ ''. STDERR: '' @ err))) \<and>
   (fst (subprocess_run pf (''clamscan --database=/tmp/clamav/database '' @ [CHR 0x22]
                            @ file_path @ [CHR 0x22]) (world s)) = Inr (exit_code, out, err)
      \<longrightarrow> fst (run_scan pf file_path s) = scan_verdict (exit_code, out, err))"
proof (intro conjI impI)
  show "exit_code = 0 \<Longrightarrow> scan_verdict (exit_code, out, err) = Inr (''clean'', None)"
    by (simp add: scan_verdict_def)
  show "exit_code = 1 \<Longrightarrow> \<exists>name. scan_verdict (exit_code, out, err) = Inr (''infected'', Some name)"
    by (simp add: scan_verdict_def)
  show "exit_code \<noteq> 0 \<and> exit_code \<noteq> 1 \<Longrightarrow> scan_verdict (exit_code, out, err)
            = Inl (OtherError (''ClamAV scan error. Exit code: '' @ str_int exit_code
                               @ ''. STDERR: '' @ err))"
    by (simp add: scan_verdict_def)
  show "fst (subprocess_run pf (''clamscan --database=/tmp/clamav/database '' @ [CHR 0x22]
                            @ file_path @ [CHR 0x22]) (world s)) = Inr (exit_code, out, err)
      \<Longrightarrow> fst (run_scan pf file_path s) = scan_verdict (exit_code, out, err)"
    by (rule run_scan_result)
next
  assume a: "exit_code = 1 \<and> split_str out [CHR 0x0A] = pre @ line # rest \<and>
    (\<forall>l \<in> set pre. \<not> (endswith (strip l) '' FOUND'' \<and> 2 \<le> length (split_str l '': ''))) \<and>
    endswith (strip line) '' FOUND'' \<and> split_str line '': '' = p0 # p1 # ps"
  then have "find_virus_name (pre @ line # rest) ''Unknown'' = strip (replace p1 '' FOUND'' [])"
    using find_virus_name_skip [of pre "line # rest" "''Unknown''"] find_virus_name_hit by simp
  with a show "scan_verdict (exit_code, out, err)
            = Inr (''infected'', Some (strip (replace p1 '' FOUND'' [])))"
    by (simp add: scan_verdict_def)
next
  assume a: "exit_code = 1 \<and> split_str out [CHR 0x0A] = pre @ (f @ '': '' @ v @ '' FOUND'') # rest \<and>
    (\<forall>l \<in> set pre. \<not> (endswith (strip l) '' FOUND'' \<and> 2 \<le> length (split_str l '': ''))) \<and>
    CHR '':'' \<notin> set f \<and> CHR '':'' \<notin> set v \<and> CHR '' '' \<notin> set v"
  then have "find_virus_name (pre @ (f @ '': '' @ v @ '' FOUND'') # rest) ''Unknown'' = strip v"
    using find_virus_name_skip [of pre "(f @ '': '' @ v @ '' FOUND'') # rest" "''Unknown''"]
      find_virus_name_report by simp
  with a show "scan_verdict (exit_code, out, err) = Inr (''infected'', Some (strip v))"
    by (simp add: scan_verdict_def)
next
  assume a: "exit_code = 1 \<and>
    (\<forall>l \<in> set (split_str out [CHR 0x0A]).
        \<not> (endswith (strip l) '' FOUND'' \<and> 2 \<le> length (split_str l '': '')))"
  then have "find_virus_name (split_str out [CHR 0x0A] @ []) ''Unknown'' = ''Unknown''"
    using find_virus_name_skip [of "split_str out [CHR 0x0A]" "[]" "''Unknown''"] by simp
  with a show "scan_verdict (exit_code, out, err) = Inr (''infected'', Some ''Unknown'')"
    by (simp add: scan_verdict_def)
qed

text \<open>
  C4. The name is to be the text between the first colon-space of the report line and
  the marker, as the comment of line 89 has it (\<open>filename: virus-name FOUND\<close>). Line 90
  takes \<open>line.split(': ')[1]\<close>, the piece between the first colon-space and the second
  one. For the object key \<open>p/a: b.txt\<close> the scanner reports on the local path
  \<open>/tmp/clamav/scan/a: b.txt\<close>: the text between the first colon-space and the marker is
  \<open>b.txt: Eicar-Signature\<close>, and \<open>run_scan\<close> returns \<open>b.txt\<close>, a piece of the path, as the
  name of the virus.
\<close>

theorem run_scan_name_is_path_fragment:
  "basename ''p/a: b.txt'' = ''a: b.txt'' \<and>
   scan_verdict (1, ''/tmp/clamav/scan/a: b.txt: Eicar-Signature FOUND'', [])
     = Inr (''infected'', Some ''b.txt'') \<and>
   spec_signature_name ''/tmp/clamav/scan/a: b.txt: Eicar-Signature FOUND''
     = ''b.txt: Eicar-Signature'' \<and>
   scan_verdict (1, ''/tmp/clamav/scan/a: b.txt: Eicar-Signature FOUND'', [])
     \<noteq> Inr (''infected'',
            Some (spec_signature_name ''/tmp/clamav/scan/a: b.txt: Eicar-Signature FOUND'')) \<and>
   scan_verdict (1, ''/tmp/clamav/scan/b.txt: Win.Test.EICAR_HDB-1 FOUND'' @ [CHR 0x0A]
                    @ ''Infected files: 1'', [])
     = Inr (''infected'',
            Some (spec_signature_name ''/tmp/clamav/scan/b.txt: Win.Test.EICAR_HDB-1 FOUND''))"
  by code_simp

section \<open>Stepping through programs\<close>

lemma copies_simps [simp]:
  "copies (tr @ tr') = copies tr @ copies tr'"
  "copies (c # tr) = copied c @ copies tr"
  "copies [] = []"
  by (simp_all add: copies_def)

lemma and_then_alt:
  "and_then m f s = (case fst (m s) of Inl e \<Rightarrow> (Inl e, snd (m s)) | Inr x \<Rightarrow> f x (snd (m s)))"
  by (simp add: and_then_def split: prod.splits sum.splits)

lemma try_except_alt:
  "try_except m h s = (case fst (m s) of Inl e \<Rightarrow> h e (snd (m s)) | Inr x \<Rightarrow> (Inr x, snd (m s)))"
  by (simp add: try_except_def split: prod.splits sum.splits)

lemma for_each_alt:
  "for_each f (x # xs) s =
     (case fst (f x s) of Inl e \<Rightarrow> (Inl e, snd (f x s)) | Inr u \<Rightarrow> for_each f xs (snd (f x s)))"
  by (simp split: prod.splits sum.splits)

lemma perform_simps [simp]:
  "fst (perform c f s) = fst (f (world s))"
  "world (snd (perform c f s)) = snd (f (world s))"
  "trace (snd (perform c f s)) = trace s @ [c]"
  "files_to_process (snd (perform c f s)) = files_to_process s"
  "folder_keys_to_move (snd (perform c f s)) = folder_keys_to_move s"
  "scan_results_map (snd (perform c f s)) = scan_results_map s"
  "is_batch_infected_or_error (snd (perform c f s)) = is_batch_infected_or_error s"
  by (simp_all add: perform_def)

lemma print_simps [simp]:
  "fst (print msg s) = Inr ()"
  "world (snd (print msg s)) = world s"
  "trace (snd (print msg s)) = trace s @ [Print msg]"
  "files_to_process (snd (print msg s)) = files_to_process s"
  "folder_keys_to_move (snd (print msg s)) = folder_keys_to_move s"
  "scan_results_map (snd (print msg s)) = scan_results_map s"
  "is_batch_infected_or_error (snd (print msg s)) = is_batch_infected_or_error s"
  by (simp_all add: print_def)

lemma basic_simps [simp]:
  "fst (return x s) = Inr x" "snd (return x s) = s"
  "fst (raise e s) = Inl e" "snd (raise e s) = s"
  "fst (modify g s) = Inr ()" "snd (modify g s) = g s"
  by (simp_all add: return_def raise_def modify_def)

lemmas op_defs = copy_object_def delete_object_def get_object_tagging_def
  put_object_tagging_def download_file_def makedirs_def remove_def run_command_def

lemmas step = and_then_alt try_except_alt

lemma read_tags_frame [simp]:
  "copies (trace (snd (read_tags pf b k s))) = copies (trace s)"
  "files_to_process (snd (read_tags pf b k s)) = files_to_process s"
  "folder_keys_to_move (snd (read_tags pf b k s)) = folder_keys_to_move s"
  "scan_results_map (snd (read_tags pf b k s)) = scan_results_map s"
  "is_batch_infected_or_error (snd (read_tags pf b k s)) = is_batch_infected_or_error s"
  by (simp_all add: read_tags_def step op_defs split: sum.splits exn.splits)

lemma update_tags_frame [simp]:
  "copies (trace (snd (update_tags pf b k st d s))) = copies (trace s)"
  "files_to_process (snd (update_tags pf b k st d s)) = files_to_process s"
  "folder_keys_to_move (snd (update_tags pf b k st d s)) = folder_keys_to_move s"
  "scan_results_map (snd (update_tags pf b k st d s)) = scan_results_map s"
  "is_batch_infected_or_error (snd (update_tags pf b k st d s)) = is_batch_infected_or_error s"
  by (simp_all add: update_tags_def step op_defs split: sum.splits)

lemma move_one_frame [simp]:
  "copies (trace (snd (move_one pf lb dst e s))) = copies (trace s) @ [(dst, fst e)]"
  "files_to_process (snd (move_one pf lb dst e s)) = files_to_process s"
  "folder_keys_to_move (snd (move_one pf lb dst e s)) = folder_keys_to_move s"
  "scan_results_map (snd (move_one pf lb dst e s)) = scan_results_map s"
  "is_batch_infected_or_error (snd (move_one pf lb dst e s)) = is_batch_infected_or_error s"
  by (simp_all add: move_one_def step op_defs split: sum.splits exn.splits prod.splits)
lemma for_each_total:
  "(\<And>x s. fst (f x s) = Inr ()) \<Longrightarrow> fst (for_each f xs s) = Inr ()"
  by (induction xs arbitrary: s) (simp_all add: for_each_alt del: for_each.simps(2))

lemma for_each_copies:
  assumes "\<And>x s. copies (trace (snd (f x s))) = copies (trace s) @ g x"
  shows "\<exists>n \<le> length xs.
           copies (trace (snd (for_each f xs s))) = copies (trace s) @ concat (map g (take n xs)) \<and>
           (fst (for_each f xs s) = Inr () \<longrightarrow> n = length xs)"
proof (induction xs arbitrary: s)
  case Nil
  then show ?case by simp
next
  case (Cons x xs)
  show ?case
  proof (cases "fst (f x s)")
    case (Inl e)
    then show ?thesis
      using assms [of x s] by (intro exI [of _ 1]) (simp add: for_each_alt del: for_each.simps(2))
  next
    case (Inr u)
    from Cons [of "snd (f x s)"] obtain n where n: "n \<le> length xs"
      "copies (trace (snd (for_each f xs (snd (f x s)))))
         = copies (trace (snd (f x s))) @ concat (map g (take n xs))"
      "fst (for_each f xs (snd (f x s))) = Inr () \<longrightarrow> n = length xs"
      by blast
    with Inr show ?thesis
      using assms [of x s] by (intro exI [of _ "Suc n"]) (simp add: for_each_alt del: for_each.simps(2))
  qed
qed

lemma for_each_frame:
  assumes "\<And>x s. obs (snd (f x s)) = obs s"
  shows "obs (snd (for_each f xs s)) = obs s"
  by (induction xs arbitrary: s)
    (simp_all add: for_each_alt assms del: for_each.simps(2) split: sum.splits)

lemma storage_errors_only_ops:
  assumes "storage_errors_only pf"
  shows "fst (s3_copy_object pf b src k w) \<noteq> Inl (OtherError m)"
    "fst (s3_delete_object pf b k w) \<noteq> Inl (OtherError m)"
    "fst (s3_get_object_tagging pf b k w) \<noteq> Inl (OtherError m)"
    "fst (s3_put_object_tagging pf b k ts w) \<noteq> Inl (OtherError m)"
proof -
  show "fst (s3_copy_object pf b src k w) \<noteq> Inl (OtherError m)"
  proof
    assume "fst (s3_copy_object pf b src k w) = Inl (OtherError m)"
    with assms have "\<exists>c m'. OtherError m = ClientError c m'"
      unfolding storage_errors_only_def by blast
    then show False by simp
  qed
  show "fst (s3_delete_object pf b k w) \<noteq> Inl (OtherError m)"
  proof
    assume "fst (s3_delete_object pf b k w) = Inl (OtherError m)"
    with assms have "\<exists>c m'. OtherError m = ClientError c m'"
      unfolding storage_errors_only_def by blast
    then show False by simp
  qed
  show "fst (s3_get_object_tagging pf b k w) \<noteq> Inl (OtherError m)"
  proof
    assume "fst (s3_get_object_tagging pf b k w) = Inl (OtherError m)"
    with assms have "\<exists>c m'. OtherError m = ClientError c m'"
      unfolding storage_errors_only_def by blast
    then show False by simp
  qed
  show "fst (s3_put_object_tagging pf b k ts w) \<noteq> Inl (OtherError m)"
  proof
    assume "fst (s3_put_object_tagging pf b k ts w) = Inl (OtherError m)"
    with assms have "\<exists>c m'. OtherError m = ClientError c m'"
      unfolding storage_errors_only_def by blast
    then show False by simp
  qed
qed

lemma read_tags_storage_error:
  "storage_errors_only pf \<Longrightarrow> fst (read_tags pf b k s) \<noteq> Inl (OtherError m)"
  by (simp add: read_tags_def step op_defs storage_errors_only_ops split: sum.splits exn.splits)

lemma update_tags_storage_error:
  assumes "storage_errors_only pf"
  shows "fst (update_tags pf b k st d s) \<noteq> Inl (OtherError m)"
proof (cases "fst (read_tags pf b k s)")
  case (Inl e)
  with read_tags_storage_error [OF assms, of b k s m] show ?thesis
    by (auto simp add: update_tags_def step)
next
  case (Inr tags)
  then show ?thesis
    by (simp add: update_tags_def step op_defs storage_errors_only_ops [OF assms])
qed

lemma move_one_total:
  assumes "storage_errors_only pf"
  shows "fst (move_one pf lb dst e s) = Inr ()"
proof -
  obtain k st d where e: "e = (k, st, d)" by (cases e) auto
  show ?thesis
    unfolding e
    by (simp add: move_one_def step op_defs storage_errors_only_ops [OF assms]
        update_tags_storage_error [OF assms] split: sum.splits exn.splits)
qed

lemma move_and_tag_files_total:
  "environ pf ''LANDING_BUCKET_NAME'' = Some lb \<Longrightarrow> storage_errors_only pf \<Longrightarrow>
   fst (move_and_tag_files pf dst results s) = Inr ()"
  by (simp add: move_and_tag_files_def for_each_total move_one_total)

lemma move_and_tag_files_copies:
  "\<exists>n \<le> length results.
     copies (trace (snd (move_and_tag_files pf dst results s)))
       = copies (trace s) @ map (\<lambda>e. (dst, fst e)) (take n results) \<and>
     (fst (move_and_tag_files pf dst results s) = Inr () \<longrightarrow> n = length results)"
proof (cases "environ pf ''LANDING_BUCKET_NAME''")
  case None
  then show ?thesis
    by (intro exI [of _ 0]) (simp add: move_and_tag_files_def)
next
  case (Some lb)
  show ?thesis
    using for_each_copies [of "move_one pf lb dst" "\<lambda>e. [(dst, fst e)]" results s] Some
    by (simp add: move_and_tag_files_def)
qed

lemma move_and_tag_files_frame [simp]:
  "files_to_process (snd (move_and_tag_files pf dst results s)) = files_to_process s"
  "folder_keys_to_move (snd (move_and_tag_files pf dst results s)) = folder_keys_to_move s"
  "scan_results_map (snd (move_and_tag_files pf dst results s)) = scan_results_map s"
  "is_batch_infected_or_error (snd (move_and_tag_files pf dst results s))
     = is_batch_infected_or_error s"
  by (simp_all add: move_and_tag_files_def for_each_frame split: option.splits)








section \<open>Reading the existing tags fails\<close>

lemma tags_to_keep_Nil: "tags_to_keep [] A = A"
  by (simp add: tags_to_keep_def)

text \<open>
  C10. When reading the existing tag set raises a storage error, \<open>update_tags\<close> goes on
  with an empty tag set whatever the error code -- logging the failure unless the code
  is \<open>NoSuchTaggingSet\<close> -- and the tag set it writes back is exactly the new scan tags:
  it holds no key other than \<open>scan-result\<close>, \<open>scan-time\<close>, \<open>virus-name\<close>, \<open>scan-error\<close>,
  so no tag that the object had before is written back. \<open>update_tags\<close> then returns or
  raises what the write does.
\<close>

theorem update_tags_read_failure:
  assumes "fst (s3_get_object_tagging pf b k (world s)) = Inl (ClientError code msg)"
  shows
    "trace (snd (update_tags pf b k st d s))
       = trace s @ [GetObjectTagging b k]
         @ (if code = ''NoSuchTaggingSet'' then []
            else [Print (''Failed to get tags for '' @ k @ '': '' @ msg)])
         @ [PutObjectTagging b k (additional_tags (scan_time pf) st d)] \<and>
     fst (update_tags pf b k st d s)
       = fst (s3_put_object_tagging pf b k (additional_tags (scan_time pf) st d)
                (snd (s3_get_object_tagging pf b k (world s)))) \<and>
     set (map fst (additional_tags (scan_time pf) st d))
       \<subseteq> {''scan-result'', ''scan-time'', ''virus-name'', ''scan-error''}"
  using assms additional_keys [of "scan_time pf" st d]
  by (simp add: update_tags_def read_tags_def step op_defs tags_to_keep_Nil)

lemma tagging_down_read:
  "fst (s3_get_object_tagging tagging_down (Some ''processed'') ''p/a.txt'' (world start))
     = Inl (ClientError ''InternalError'' ''We encountered an internal error.'')"
  by (simp add: tagging_down_def scripted_def)

theorem update_tags_read_failure_witness:
  "fst (s3_get_object_tagging tagging_down (Some ''processed'') ''p/a.txt'' (world start))
     = Inl (ClientError ''InternalError'' ''We encountered an internal error.'') \<and>
   trace (snd (update_tags tagging_down (Some ''processed'') ''p/a.txt'' ''clean'' None start))
     = [GetObjectTagging (Some ''processed'') ''p/a.txt'',
        Print ''Failed to get tags for p/a.txt: We encountered an internal error.'',
        PutObjectTagging (Some ''processed'') ''p/a.txt''
          [(''scan-result'', ''clean''), (''scan-time'', ''2024-05-01T12:00:00'')]]"
  using update_tags_read_failure [OF tagging_down_read, of "''clean''" None] tagging_down_read
  by (simp add: start_def tagging_down_def scripted_def)

section \<open>The scan loop and the size sweep\<close>

lemma for_each_invariant:
  assumes step: "\<And>pre x post s. all = pre @ x # post \<Longrightarrow> I pre s \<Longrightarrow>
                   fst (f x s) = Inr () \<and> I (pre @ [x]) (snd (f x s))"
  shows "all = pre @ xs \<Longrightarrow> I pre s \<Longrightarrow>
         fst (for_each f xs s) = Inr () \<and> I all (snd (for_each f xs s))"
proof (induction xs arbitrary: pre s)
  case Nil
  then show ?case by simp
next
  case (Cons x xs)
  from step [OF Cons.prems] have a: "fst (f x s) = Inr ()" "I (pre @ [x]) (snd (f x s))"
    by simp_all
  from Cons.prems(1) have "all = (pre @ [x]) @ xs" by simp
  from Cons.IH [OF this a(2)] a(1) show ?case
    by (simp add: for_each_alt del: for_each.simps(2))
qed

lemma run_scan_frame [simp]:
  "copies (trace (snd (run_scan pf path s))) = copies (trace s)"
  "files_to_process (snd (run_scan pf path s)) = files_to_process s"
  "folder_keys_to_move (snd (run_scan pf path s)) = folder_keys_to_move s"
  "scan_results_map (snd (run_scan pf path s)) = scan_results_map s"
  "is_batch_infected_or_error (snd (run_scan pf path s)) = is_batch_infected_or_error s"
  by (simp_all add: run_scan_def step op_defs split: sum.splits prod.splits)

lemma set_simps [simp]:
  "scan_results_map (set_result k v s) = AList.update k v (scan_results_map s)"
  "is_batch_infected_or_error (set_result k v s) = is_batch_infected_or_error s"
  "files_to_process (set_result k v s) = files_to_process s"
  "folder_keys_to_move (set_result k v s) = folder_keys_to_move s"
  "trace (set_result k v s) = trace s"
  "world (set_result k v s) = world s"
  "scan_results_map (set_flag s) = scan_results_map s"
  "is_batch_infected_or_error (set_flag s) = True"
  "files_to_process (set_flag s) = files_to_process s"
  "folder_keys_to_move (set_flag s) = folder_keys_to_move s"
  "trace (set_flag s) = trace s"
  "world (set_flag s) = world s"
  by (simp_all add: set_result_def set_flag_def)

lemma scan_one_effect:
  "\<exists>v. fst (scan_one pf lb k s) = Inr () \<and>
       scan_results_map (snd (scan_one pf lb k s)) = AList.update k v (scan_results_map s) \<and>
       is_batch_infected_or_error (snd (scan_one pf lb k s))
         = (is_batch_infected_or_error s \<or> fst v = ''infected'' \<or> fst v = ''error'') \<and>
       files_to_process (snd (scan_one pf lb k s)) = files_to_process s \<and>
       folder_keys_to_move (snd (scan_one pf lb k s)) = folder_keys_to_move s \<and>
       copies (trace (snd (scan_one pf lb k s))) = copies (trace s)"
  by (auto simp add: scan_one_def step op_defs split: sum.splits)

lemma scan_one_marker:
  "endswith k ''_commit.json'' \<Longrightarrow>
   scan_one pf lb k s = (Inr (), set_result k (''clean'', None) s)"
  by (simp add: scan_one_def try_except_def modify_def)

lemma update_fresh: "k \<notin> fst ` set al \<Longrightarrow> AList.update k v al = al @ [(k, v)]"
  by (induction al) auto

lemma ex_entry_snoc:
  "(\<exists>k v. (k, v) \<in> set (m @ [(k0, v0)]) \<and> P v) = ((\<exists>k v. (k, v) \<in> set m \<and> P v) \<or> P v0)"
  by auto

lemma flagged_Nil [simp]: "flagged [] = False"
  by (simp add: flagged_def)

lemma flagged_snoc [simp]:
  "flagged (m @ [(k, v)]) = (flagged m \<or> fst v = ''infected'' \<or> fst v = ''error'')"
  unfolding flagged_def by (rule ex_entry_snoc)

lemma scan_loop_effect:
  fixes s :: "'w state"
  assumes d: "distinct keys"
    and m: "scan_results_map s = []" and f: "\<not> is_batch_infected_or_error s"
  shows "fst (for_each (scan_one pf lb) keys s) = Inr () \<and>
     (map fst (scan_results_map (snd (for_each (scan_one pf lb) keys s))) = keys \<and>
      is_batch_infected_or_error (snd (for_each (scan_one pf lb) keys s))
        = flagged (scan_results_map (snd (for_each (scan_one pf lb) keys s))) \<and>
      files_to_process (snd (for_each (scan_one pf lb) keys s)) = files_to_process s \<and>
      folder_keys_to_move (snd (for_each (scan_one pf lb) keys s)) = folder_keys_to_move s \<and>
      copies (trace (snd (for_each (scan_one pf lb) keys s))) = copies (trace s))"
proof (rule for_each_invariant [where all = keys and pre = "[]" and I = "\<lambda>pre s'.
     map fst (scan_results_map s') = pre \<and>
     is_batch_infected_or_error s' = flagged (scan_results_map s') \<and>
     files_to_process s' = files_to_process s \<and>
     folder_keys_to_move s' = folder_keys_to_move s \<and>
     copies (trace s') = copies (trace s)"])
  show "keys = [] @ keys" by simp
  show "map fst (scan_results_map s) = [] \<and>
     is_batch_infected_or_error s = flagged (scan_results_map s) \<and>
     files_to_process s = files_to_process s \<and>
     folder_keys_to_move s = folder_keys_to_move s \<and>
     copies (trace s) = copies (trace s)"
    using m f by simp
next
  fix pre x post and s' :: "'w state"
  assume k: "keys = pre @ x # post"
    and I: "map fst (scan_results_map s') = pre \<and>
     is_batch_infected_or_error s' = flagged (scan_results_map s') \<and>
     files_to_process s' = files_to_process s \<and>
     folder_keys_to_move s' = folder_keys_to_move s \<and>
     copies (trace s') = copies (trace s)"
  from k d have "x \<notin> set pre" by simp
  moreover from I have "set (map fst (scan_results_map s')) = set pre" by simp
  ultimately have fresh: "x \<notin> fst ` set (scan_results_map s')" by simp
  from scan_one_effect [of pf lb x s'] obtain v where v:
    "fst (scan_one pf lb x s') = Inr () \<and>
       scan_results_map (snd (scan_one pf lb x s')) = AList.update x v (scan_results_map s') \<and>
       is_batch_infected_or_error (snd (scan_one pf lb x s'))
         = (is_batch_infected_or_error s' \<or> fst v = ''infected'' \<or> fst v = ''error'') \<and>
       files_to_process (snd (scan_one pf lb x s')) = files_to_process s' \<and>
       folder_keys_to_move (snd (scan_one pf lb x s')) = folder_keys_to_move s' \<and>
       copies (trace (snd (scan_one pf lb x s'))) = copies (trace s')" ..
  show "fst (scan_one pf lb x s') = Inr () \<and>
    (map fst (scan_results_map (snd (scan_one pf lb x s'))) = pre @ [x] \<and>
     is_batch_infected_or_error (snd (scan_one pf lb x s'))
       = flagged (scan_results_map (snd (scan_one pf lb x s'))) \<and>
     files_to_process (snd (scan_one pf lb x s')) = files_to_process s \<and>
     folder_keys_to_move (snd (scan_one pf lb x s')) = folder_keys_to_move s \<and>
     copies (trace (snd (scan_one pf lb x s'))) = copies (trace s))"
    using v I by (simp add: update_fresh [OF fresh])
qed

lemma sweep_one_effect:
  "fst (sweep_one (k, sz) s) = Inr () \<and>
   scan_results_map (snd (sweep_one (k, sz) s))
     = (if sz > FIVE_GB
        then AList.update k oversize_verdict (scan_results_map s)
        else scan_results_map s) \<and>
   is_batch_infected_or_error (snd (sweep_one (k, sz) s))
     = (is_batch_infected_or_error s \<or> sz > FIVE_GB) \<and>
   files_to_process (snd (sweep_one (k, sz) s)) = files_to_process s \<and>
   folder_keys_to_move (snd (sweep_one (k, sz) s)) = folder_keys_to_move s \<and>
   world (snd (sweep_one (k, sz) s)) = world s \<and>
   copies (trace (snd (sweep_one (k, sz) s))) = copies (trace s)"
  by (simp add: sweep_one_def step)

lemma swept_snoc:
  "swept (items @ [(k, sz)]) m =
     (if sz > FIVE_GB
      then AList.update k oversize_verdict (swept items m)
      else swept items m)"
  by (simp add: swept_def)

lemma swept_Cons:
  "swept ((k, sz) # items) m =
     swept items (if sz > FIVE_GB
      then AList.update k oversize_verdict m else m)"
  by (simp add: swept_def)

lemma swept_Nil [simp]: "swept [] m = m"
  by (simp add: swept_def)

lemma map_of_swept:
  "map_of (swept items m) k =
     (if \<exists>sz. (k, sz) \<in> set items \<and> sz > FIVE_GB
      then Some oversize_verdict else map_of m k)"
proof (induction items arbitrary: m)
  case Nil
  then show ?case by simp
next
  case (Cons item items)
  obtain k' sz' where item: "item = (k', sz')" by (cases item)
  show ?case
    unfolding item swept_Cons Cons.IH
    by (auto simp add: update_conv')
qed

lemma keys_swept:
  "fst ` set items \<subseteq> set (map fst m) \<Longrightarrow> map fst (swept items m) = map fst m"
proof (induction items arbitrary: m)
  case Nil
  then show ?case by simp
next
  case (Cons item items)
  obtain k' sz' where item: "item = (k', sz')" by (cases item)
  from Cons.prems have k': "k' \<in> set (map fst m)" and rest: "fst ` set items \<subseteq> set (map fst m)"
    unfolding item by auto
  show ?case
    unfolding item swept_Cons
    using Cons.IH [of "AList.update k' oversize_verdict m"]
      Cons.IH [of m] k' rest
    by (simp add: update_keys)
qed

lemma sweep_loop_effect:
  fixes s :: "'w state"
  shows "fst (for_each sweep_one items s) = Inr () \<and>
   (scan_results_map (snd (for_each sweep_one items s)) = swept items (scan_results_map s) \<and>
    is_batch_infected_or_error (snd (for_each sweep_one items s))
      = (is_batch_infected_or_error s \<or> (\<exists>k sz. (k, sz) \<in> set items \<and> sz > FIVE_GB)) \<and>
    files_to_process (snd (for_each sweep_one items s)) = files_to_process s \<and>
    folder_keys_to_move (snd (for_each sweep_one items s)) = folder_keys_to_move s \<and>
    world (snd (for_each sweep_one items s)) = world s \<and>
    copies (trace (snd (for_each sweep_one items s))) = copies (trace s))"
proof (rule for_each_invariant [where all = items and pre = "[]" and I = "\<lambda>pre s'.
     scan_results_map s' = swept pre (scan_results_map s) \<and>
     is_batch_infected_or_error s'
       = (is_batch_infected_or_error s \<or> (\<exists>k sz. (k, sz) \<in> set pre \<and> sz > FIVE_GB)) \<and>
     files_to_process s' = files_to_process s \<and>
     folder_keys_to_move s' = folder_keys_to_move s \<and>
     world s' = world s \<and>
     copies (trace s') = copies (trace s)"])
  show "items = [] @ items" by simp
  show "scan_results_map s = swept [] (scan_results_map s) \<and>
     is_batch_infected_or_error s
       = (is_batch_infected_or_error s \<or> (\<exists>k sz. (k, sz) \<in> set [] \<and> sz > FIVE_GB)) \<and>
     files_to_process s = files_to_process s \<and>
     folder_keys_to_move s = folder_keys_to_move s \<and>
     world s = world s \<and>
     copies (trace s) = copies (trace s)"
    by simp
next
  fix pre post and x :: "string \<times> int" and s' :: "'w state"
  assume I: "scan_results_map s' = swept pre (scan_results_map s) \<and>
     is_batch_infected_or_error s'
       = (is_batch_infected_or_error s \<or> (\<exists>k sz. (k, sz) \<in> set pre \<and> sz > FIVE_GB)) \<and>
     files_to_process s' = files_to_process s \<and>
     folder_keys_to_move s' = folder_keys_to_move s \<and>
     world s' = world s \<and>
     copies (trace s') = copies (trace s)"
  obtain k sz where x: "x = (k, sz)" by (cases x)
  have e: "(\<exists>k' sz'. (k', sz') \<in> set (pre @ [(k, sz)]) \<and> sz' > FIVE_GB)
      = ((\<exists>k' sz'. (k', sz') \<in> set pre \<and> sz' > FIVE_GB) \<or> sz > FIVE_GB)"
    by auto
  show "fst (sweep_one x s') = Inr () \<and>
    (scan_results_map (snd (sweep_one x s')) = swept (pre @ [x]) (scan_results_map s) \<and>
     is_batch_infected_or_error (snd (sweep_one x s'))
       = (is_batch_infected_or_error s \<or> (\<exists>k sz. (k, sz) \<in> set (pre @ [x]) \<and> sz > FIVE_GB)) \<and>
     files_to_process (snd (sweep_one x s')) = files_to_process s \<and>
     folder_keys_to_move (snd (sweep_one x s')) = folder_keys_to_move s \<and>
     world (snd (sweep_one x s')) = world s \<and>
     copies (trace (snd (sweep_one x s'))) = copies (trace s))"
    unfolding x e using sweep_one_effect [of k sz s'] I
    by (simp add: swept_snoc)
qed

lemma run_scan_fst:
  "fst (run_scan pf path s)
     = (case fst (subprocess_run pf (''clamscan --database=/tmp/clamav/database '' @ [CHR 0x22]
                                     @ path @ [CHR 0x22]) (world s)) of
          Inl e \<Rightarrow> Inl e
        | Inr r \<Rightarrow> scan_verdict r)"
  by (simp add: run_scan_def step op_defs split: sum.splits prod.splits)

lemma run_scan_trace:
  "\<exists>ps. trace (snd (run_scan pf path s))
     = trace s @ RunCommand (''clamscan --database=/tmp/clamav/database '' @ [CHR 0x22]
                             @ path @ [CHR 0x22]) # map Print ps"
proof (cases "fst (subprocess_run pf (''clamscan --database=/tmp/clamav/database '' @ [CHR 0x22]
                                     @ path @ [CHR 0x22]) (world s))")
  case (Inl e)
  then show ?thesis
    by (intro exI [of _ "[]"]) (simp add: run_scan_def step op_defs)
next
  case (Inr r)
  obtain c out err where r: "r = (c, out, err)" by (cases r)
  show ?thesis
  proof (cases "err = []")
    case True
    with Inr r show ?thesis
      by (intro exI [of _ "[out]"]) (simp add: run_scan_def step op_defs split: sum.splits)
  next
    case False
    with Inr r show ?thesis
      by (intro exI [of _ "[out, ''ClamAV stderr: '' @ err]"])
        (simp add: run_scan_def step op_defs split: sum.splits)
  qed
qed

lemma scan_one_download_fails:
  assumes "\<not> endswith k ''_commit.json''"
    and "fst (s3_download_file pf lb k (''/tmp/clamav/scan/'' @ basename k) (world s)) = Inl e"
  shows "fst (scan_one pf lb k s) = Inr () \<and>
     scan_results_map (snd (scan_one pf lb k s))
       = AList.update k (''error'', Some (str_exn e)) (scan_results_map s) \<and>
     is_batch_infected_or_error (snd (scan_one pf lb k s)) \<and>
     trace (snd (scan_one pf lb k s))
       = trace s @ [Print (''Scanning file: '' @ k),
                    DownloadFile lb k (''/tmp/clamav/scan/'' @ basename k),
                    Print (''ERROR processing '' @ k @ '': '' @ str_exn e)]"
  using assms by (simp add: scan_one_def step op_defs)

lemma scan_one_scan_fails:
  assumes "\<not> endswith k ''_commit.json''"
    and "fst (s3_download_file pf lb k (''/tmp/clamav/scan/'' @ basename k) (world s)) = Inr ()"
    and "(case fst (subprocess_run pf
             (''clamscan --database=/tmp/clamav/database '' @ [CHR 0x22]
              @ (''/tmp/clamav/scan/'' @ basename k) @ [CHR 0x22])
             (snd (s3_download_file pf lb k (''/tmp/clamav/scan/'' @ basename k) (world s)))) of
            Inl e' \<Rightarrow> Inl e'
          | Inr r \<Rightarrow> scan_verdict r) = Inl e"
  shows "fst (scan_one pf lb k s) = Inr () \<and>
     scan_results_map (snd (scan_one pf lb k s))
       = AList.update k (''error'', Some (str_exn e)) (scan_results_map s) \<and>
     is_batch_infected_or_error (snd (scan_one pf lb k s)) \<and>
     (\<exists>ps. trace (snd (scan_one pf lb k s))
       = trace s @ [Print (''Scanning file: '' @ k),
                    DownloadFile lb k (''/tmp/clamav/scan/'' @ basename k),
                    RunCommand (''clamscan --database=/tmp/clamav/database '' @ [CHR 0x22]
                                @ (''/tmp/clamav/scan/'' @ basename k) @ [CHR 0x22])]
              @ map Print ps)"
proof -
  let ?path = "''/tmp/clamav/scan/'' @ basename k"
  let ?s2 = "snd (download_file pf lb k ?path (snd (print (''Scanning file: '' @ k) s)))"
  have w: "world ?s2 = snd (s3_download_file pf lb k ?path (world s))"
    by (simp add: op_defs)
  have r: "fst (run_scan pf ?path ?s2) = Inl e"
    unfolding run_scan_fst w using assms(3) by simp
  obtain ps where ps: "trace (snd (run_scan pf ?path ?s2))
     = trace ?s2 @ RunCommand (''clamscan --database=/tmp/clamav/database '' @ [CHR 0x22]
                               @ ?path @ [CHR 0x22]) # map Print ps"
    using run_scan_trace [of pf ?path ?s2] ..
  have t: "trace (snd (scan_one pf lb k s))
       = trace s @ [Print (''Scanning file: '' @ k), DownloadFile lb k ?path,
                    RunCommand (''clamscan --database=/tmp/clamav/database '' @ [CHR 0x22]
                                @ ?path @ [CHR 0x22])]
              @ map Print (ps @ [''ERROR processing '' @ k @ '': '' @ str_exn e])"
    using assms(1,2) r ps by (simp add: scan_one_def step op_defs)
  have "fst (scan_one pf lb k s) = Inr () \<and>
     scan_results_map (snd (scan_one pf lb k s))
       = AList.update k (''error'', Some (str_exn e)) (scan_results_map s) \<and>
     is_batch_infected_or_error (snd (scan_one pf lb k s))"
    using assms(1,2) r by (simp add: scan_one_def step op_defs)
  with t show ?thesis
    by (intro conjI exI [of _ "ps @ [''ERROR processing '' @ k @ '': '' @ str_exn e]"]) simp_all
qed

section \<open>Exceptions are caught per key\<close>

lemma fold_preserves:
  "(\<And>x s. P s \<Longrightarrow> P (f x s)) \<Longrightarrow> P s \<Longrightarrow> P (fold f xs s)"
  by (induction xs arbitrary: s) simp_all

lemma add_object_distinct:
  "distinct (map fst (files_to_process s)) \<Longrightarrow>
   distinct (map fst (files_to_process (add_object obj s)))"
  by (cases obj) (simp add: add_object_def distinct_update)

lemma add_page_distinct:
  "distinct (map fst (files_to_process s)) \<Longrightarrow>
   distinct (map fst (files_to_process (add_page pg s)))"
  by (cases pg)
    (simp_all add: add_page_def
      fold_preserves [of "\<lambda>s. distinct (map fst (files_to_process s))" add_object]
      add_object_distinct)

lemma list_batch_alt:
  "snd (list_batch pf lb p s)
     = fold add_page (fst (fst (s3_paginate pf lb p (world s))))
         (snd (perform (Paginate lb p) (s3_paginate pf lb p) s))"
  "fst (list_batch pf lb p s)
     = (case snd (fst (s3_paginate pf lb p (world s))) of None \<Rightarrow> Inr () | Some e \<Rightarrow> Inl e)"
  by (simp_all add: list_batch_def perform_def split: prod.splits option.splits)

lemma list_batch_distinct:
  assumes "distinct (map fst (files_to_process s))"
  shows "distinct (map fst (files_to_process (snd (list_batch pf lb p s))))"
proof -
  let ?s1 = "snd (perform (Paginate lb p) (s3_paginate pf lb p) s)"
  have a: "distinct (map fst (files_to_process ?s1))" using assms by simp
  have "distinct (map fst (files_to_process (fold add_page pgs ?s1)))" for pgs
    using fold_preserves [where P = "\<lambda>s. distinct (map fst (files_to_process s))"
        and f = add_page and s = ?s1 and xs = pgs] add_page_distinct a
    by blast
  then show ?thesis
    by (simp add: list_batch_alt)
qed

lemma scan_one_other_keys:
  "k' \<noteq> k \<Longrightarrow>
   map_of (scan_results_map (snd (scan_one pf lb k s))) k' = map_of (scan_results_map s) k'"
proof -
  assume n: "k' \<noteq> k"
  from scan_one_effect [of pf lb k s] obtain v where
    "fst (scan_one pf lb k s) = Inr () \<and>
       scan_results_map (snd (scan_one pf lb k s)) = AList.update k v (scan_results_map s) \<and>
       is_batch_infected_or_error (snd (scan_one pf lb k s))
         = (is_batch_infected_or_error s \<or> fst v = ''infected'' \<or> fst v = ''error'') \<and>
       files_to_process (snd (scan_one pf lb k s)) = files_to_process s \<and>
       folder_keys_to_move (snd (scan_one pf lb k s)) = folder_keys_to_move s \<and>
       copies (trace (snd (scan_one pf lb k s))) = copies (trace s)" ..
  then have "scan_results_map (snd (scan_one pf lb k s)) = AList.update k v (scan_results_map s)"
    by simp
  with n show ?thesis by (simp add: update_conv')
qed

lemma scan_one_total: "fst (scan_one pf lb k s) = Inr ()"
proof -
  from scan_one_effect [of pf lb k s] obtain v where
    "fst (scan_one pf lb k s) = Inr () \<and>
       scan_results_map (snd (scan_one pf lb k s)) = AList.update k v (scan_results_map s) \<and>
       is_batch_infected_or_error (snd (scan_one pf lb k s))
         = (is_batch_infected_or_error s \<or> fst v = ''infected'' \<or> fst v = ''error'') \<and>
       files_to_process (snd (scan_one pf lb k s)) = files_to_process s \<and>
       folder_keys_to_move (snd (scan_one pf lb k s)) = folder_keys_to_move s \<and>
       copies (trace (snd (scan_one pf lb k s))) = copies (trace s)" ..
  then show ?thesis by simp
qed

text \<open>
  C2. The body of the scan loop never lets an exception escape, so the loop goes on
  with the next key whatever happened to the current one. An exception raised by the
  download of a key, or by its scan (the scanner process failing, or an exit status
  other than 0 and 1), is recorded as the verdict error with the exception's message,
  for that key, and the entries of all other keys are left as they were. Started on a
  file map with distinct keys (which listing the batch gives), with an empty result map,
  the loop returns normally and the result map then has one entry per key of the file
  map, in the same order.
\<close>

theorem scan_loop_catches_per_key:
  fixes s :: "'w state"
  shows
    "fst (scan_one pf lb k s) = Inr () \<and>
     for_each (scan_one pf lb) (k # ks) s = for_each (scan_one pf lb) ks (snd (scan_one pf lb k s)) \<and>
     (k' \<noteq> k \<longrightarrow>
        map_of (scan_results_map (snd (scan_one pf lb k s))) k' = map_of (scan_results_map s) k') \<and>
     (\<not> endswith k ''_commit.json'' \<and>
      fst (s3_download_file pf lb k (''/tmp/clamav/scan/'' @ basename k) (world s)) = Inl e \<longrightarrow>
        scan_results_map (snd (scan_one pf lb k s))
          = AList.update k (''error'', Some (str_exn e)) (scan_results_map s) \<and>
        is_batch_infected_or_error (snd (scan_one pf lb k s))) \<and>
     (\<not> endswith k ''_commit.json'' \<and>
      fst (s3_download_file pf lb k (''/tmp/clamav/scan/'' @ basename k) (world s)) = Inr () \<and>
      (case fst (subprocess_run pf
             (''clamscan --database=/tmp/clamav/database '' @ [CHR 0x22]
              @ (''/tmp/clamav/scan/'' @ basename k) @ [CHR 0x22])
             (snd (s3_download_file pf lb k (''/tmp/clamav/scan/'' @ basename k) (world s)))) of
         Inl e' \<Rightarrow> Inl e'
       | Inr r \<Rightarrow> scan_verdict r) = Inl e \<longrightarrow>
        scan_results_map (snd (scan_one pf lb k s))
          = AList.update k (''error'', Some (str_exn e)) (scan_results_map s) \<and>
        is_batch_infected_or_error (snd (scan_one pf lb k s))) \<and>
     (distinct (map fst (files_to_process s)) \<and> scan_results_map s = [] \<and>
      \<not> is_batch_infected_or_error s \<longrightarrow>
        fst (scan_files pf lb s) = Inr () \<and>
        map fst (scan_results_map (snd (scan_files pf lb s))) = map fst (files_to_process s) \<and>
        distinct (map fst (scan_results_map (snd (scan_files pf lb s))))) \<and>
     (distinct (map fst (files_to_process s)) \<longrightarrow>
        distinct (map fst (files_to_process (snd (list_batch pf lb p s)))))"
proof (intro conjI impI)
  show t: "fst (scan_one pf lb k s) = Inr ()" by (rule scan_one_total)
  show "for_each (scan_one pf lb) (k # ks) s
      = for_each (scan_one pf lb) ks (snd (scan_one pf lb k s))"
    using t by (simp add: for_each_alt del: for_each.simps(2))
  show "k' \<noteq> k \<Longrightarrow>
      map_of (scan_results_map (snd (scan_one pf lb k s))) k' = map_of (scan_results_map s) k'"
    by (rule scan_one_other_keys)
  show "distinct (map fst (files_to_process s)) \<Longrightarrow>
      distinct (map fst (files_to_process (snd (list_batch pf lb p s))))"
    by (rule list_batch_distinct)
next
  assume a: "\<not> endswith k ''_commit.json'' \<and>
      fst (s3_download_file pf lb k (''/tmp/clamav/scan/'' @ basename k) (world s)) = Inl e"
  from scan_one_download_fails [OF conjunct1 [OF a] conjunct2 [OF a]]
  show "scan_results_map (snd (scan_one pf lb k s))
          = AList.update k (''error'', Some (str_exn e)) (scan_results_map s)"
    and "is_batch_infected_or_error (snd (scan_one pf lb k s))"
    by simp_all
next
  assume a: "\<not> endswith k ''_commit.json'' \<and>
      fst (s3_download_file pf lb k (''/tmp/clamav/scan/'' @ basename k) (world s)) = Inr () \<and>
      (case fst (subprocess_run pf
             (''clamscan --database=/tmp/clamav/database '' @ [CHR 0x22]
              @ (''/tmp/clamav/scan/'' @ basename k) @ [CHR 0x22])
             (snd (s3_download_file pf lb k (''/tmp/clamav/scan/'' @ basename k) (world s)))) of
         Inl e' \<Rightarrow> Inl e'
       | Inr r \<Rightarrow> scan_verdict r) = Inl e"
  from scan_one_scan_fails [OF conjunct1 [OF a] conjunct1 [OF conjunct2 [OF a]]
      conjunct2 [OF conjunct2 [OF a]]]
  show "scan_results_map (snd (scan_one pf lb k s))
          = AList.update k (''error'', Some (str_exn e)) (scan_results_map s)"
    and "is_batch_infected_or_error (snd (scan_one pf lb k s))"
    by simp_all
next
  assume a: "distinct (map fst (files_to_process s)) \<and> scan_results_map s = [] \<and>
      \<not> is_batch_infected_or_error s"
  from scan_loop_effect [OF conjunct1 [OF a] conjunct1 [OF conjunct2 [OF a]]
      conjunct2 [OF conjunct2 [OF a]], of pf lb]
  show "fst (scan_files pf lb s) = Inr ()"
    and k: "map fst (scan_results_map (snd (scan_files pf lb s))) = map fst (files_to_process s)"
    by (simp_all add: scan_files_def)
  show "distinct (map fst (scan_results_map (snd (scan_files pf lb s))))"
    unfolding k using a by simp
qed

lemma key_facts:
  "\<not> endswith ''p/a.txt'' ''_commit.json''" "\<not> endswith ''p/b.txt'' ''_commit.json''"
  "\<not> endswith ''p/c.txt'' ''_commit.json''" "endswith ''p/_commit.json'' ''_commit.json''"
  "basename ''p/a.txt'' = ''a.txt''" "basename ''p/b.txt'' = ''b.txt''"
  "basename ''p/c.txt'' = ''c.txt''" "dirname ''p/_commit.json'' = ''p''"
  "str_int 2 = ''2''"
  by code_simp+

theorem scan_loop_catches_per_key_witness:
  "''p/b.txt'' \<noteq> ''p/a.txt'' \<and>
   map_of (scan_results_map (snd (scan_one scan_faults (Some ''landing'') ''p/a.txt''
       (listed [(''p/a.txt'', 10), (''p/b.txt'', 20), (''p/_commit.json'', 2)])))) ''p/b.txt'' = None \<and>
   \<not> endswith ''p/a.txt'' ''_commit.json'' \<and>
   fst (s3_download_file scan_faults (Some ''landing'') ''p/a.txt''
          (''/tmp/clamav/scan/'' @ basename ''p/a.txt'')
          (world (listed [(''p/a.txt'', 10), (''p/b.txt'', 20), (''p/_commit.json'', 2)])))
     = Inl (ClientError ''AccessDenied'' ''Access Denied'') \<and>
   scan_results_map (snd (scan_one scan_faults (Some ''landing'') ''p/a.txt''
       (listed [(''p/a.txt'', 10), (''p/b.txt'', 20), (''p/_commit.json'', 2)])))
     = [(''p/a.txt'', ''error'', Some ''Access Denied'')] \<and>
   \<not> endswith ''p/b.txt'' ''_commit.json'' \<and>
   fst (s3_download_file scan_faults (Some ''landing'') ''p/b.txt''
          (''/tmp/clamav/scan/'' @ basename ''p/b.txt'')
          (world (listed [(''p/a.txt'', 10), (''p/b.txt'', 20), (''p/_commit.json'', 2)])))
     = Inr () \<and>
   scan_results_map (snd (scan_one scan_faults (Some ''landing'') ''p/b.txt''
       (listed [(''p/a.txt'', 10), (''p/b.txt'', 20), (''p/_commit.json'', 2)])))
     = [(''p/b.txt'', ''error'', Some ''ClamAV scan error. Exit code: 2. STDERR: boom'')] \<and>
   distinct (map fst (files_to_process
       (listed [(''p/a.txt'', 10), (''p/b.txt'', 20), (''p/_commit.json'', 2)]))) \<and>
   fst (scan_files scan_faults (Some ''landing'')
       (listed [(''p/a.txt'', 10), (''p/b.txt'', 20), (''p/_commit.json'', 2)])) = Inr () \<and>
   map fst (scan_results_map (snd (scan_files scan_faults (Some ''landing'')
       (listed [(''p/a.txt'', 10), (''p/b.txt'', 20), (''p/_commit.json'', 2)]))))
     = [''p/a.txt'', ''p/b.txt'', ''p/_commit.json'']"
proof -
  let ?s = "listed [(''p/a.txt'', 10), (''p/b.txt'', 20), (''p/_commit.json'', 2)]"
  note r = scan_loop_catches_per_key [where pf = scan_faults and lb = "Some ''landing''"
      and s = ?s]
  have s: "scan_results_map ?s = []" "\<not> is_batch_infected_or_error ?s" "world ?s = []"
    "files_to_process ?s = [(''p/a.txt'', 10), (''p/b.txt'', 20), (''p/_commit.json'', 2)]"
    by (simp_all add: listed_def start_def)
  have n: "''p/b.txt'' \<noteq> ''p/a.txt''" by simp
  have h1: "fst (s3_download_file scan_faults (Some ''landing'') ''p/a.txt''
          (''/tmp/clamav/scan/'' @ basename ''p/a.txt'') (world ?s))
     = Inl (ClientError ''AccessDenied'' ''Access Denied'')"
    by (simp add: scan_faults_def scripted_def)
  have h2: "fst (s3_download_file scan_faults (Some ''landing'') ''p/b.txt''
          (''/tmp/clamav/scan/'' @ basename ''p/b.txt'') (world ?s)) = Inr ()"
    by (simp add: scan_faults_def scripted_def)
  have h3: "(case fst (subprocess_run scan_faults
             (''clamscan --database=/tmp/clamav/database '' @ [CHR 0x22]
              @ (''/tmp/clamav/scan/'' @ basename ''p/b.txt'') @ [CHR 0x22])
             (snd (s3_download_file scan_faults (Some ''landing'') ''p/b.txt''
                     (''/tmp/clamav/scan/'' @ basename ''p/b.txt'') (world ?s)))) of
         Inl e' \<Rightarrow> Inl e'
       | Inr r \<Rightarrow> scan_verdict r)
      = Inl (OtherError ''ClamAV scan error. Exit code: 2. STDERR: boom'')"
    by (simp add: scan_faults_def scripted_def key_facts scan_verdict_def)
  have d: "distinct (map fst (files_to_process ?s))"
    by (simp add: s)
  have c1: "map_of (scan_results_map (snd (scan_one scan_faults (Some ''landing'') ''p/a.txt'' ?s)))
      ''p/b.txt'' = None"
    using r [where k = "''p/a.txt''" and k' = "''p/b.txt''", THEN conjunct2, THEN conjunct2,
        THEN conjunct1] n s by simp
  have c2: "scan_results_map (snd (scan_one scan_faults (Some ''landing'') ''p/a.txt'' ?s))
     = [(''p/a.txt'', ''error'', Some ''Access Denied'')]"
    using r [where k = "''p/a.txt''" and e = "ClientError ''AccessDenied'' ''Access Denied''",
        THEN conjunct2, THEN conjunct2, THEN conjunct2, THEN conjunct1] key_facts(1) h1 s
    by simp
  have c3: "scan_results_map (snd (scan_one scan_faults (Some ''landing'') ''p/b.txt'' ?s))
     = [(''p/b.txt'', ''error'', Some ''ClamAV scan error. Exit code: 2. STDERR: boom'')]"
    using r [where k = "''p/b.txt''"
        and e = "OtherError ''ClamAV scan error. Exit code: 2. STDERR: boom''",
        THEN conjunct2, THEN conjunct2, THEN conjunct2, THEN conjunct2, THEN conjunct1]
      key_facts(2) h2 h3 s
    by simp
  have c4: "fst (scan_files scan_faults (Some ''landing'') ?s) = Inr () \<and>
      map fst (scan_results_map (snd (scan_files scan_faults (Some ''landing'') ?s)))
        = [''p/a.txt'', ''p/b.txt'', ''p/_commit.json'']"
    using r [THEN conjunct2, THEN conjunct2, THEN conjunct2, THEN conjunct2, THEN conjunct2,
        THEN conjunct1] d s
    by simp
  show ?thesis
    using n c1 key_facts(1) h1 c2 key_facts(2) h2 c3 d c4
    by (intro conjI) (simp_all only: simp_thms)
qed

section \<open>Commit markers in the scan loop and in the size sweep\<close>

lemmas run_defs = handler_scan_def process_batch_def scan_batch_def empty_batch_def system_error_def
  route_batch_def size_sweep_def sweep_one_def scan_files_def scan_one_def definition_download_def
  list_batch_def add_page_def add_object_def move_and_tag_files_def move_one_def update_tags_def
  read_tags_def run_scan_def scan_verdict_def delete_folder_def move_folder_def
  and_then_def try_except_def return_def raise_def modify_def print_def perform_def
  copy_object_def delete_object_def get_object_tagging_def put_object_tagging_def
  download_file_def makedirs_def remove_def run_command_def set_result_def set_flag_def
  error_results_def trigger_key_def scripted_def buckets_def start_def endswith_def
  oversize_verdict_def FIVE_GB_def tags_to_keep_def str_opt_def move_error_line_def
  suffix_to_prefix

lemma repr_keys_examples:
  "repr_keys [''p/_commit.json''] = ''['' @ [CHR 0x27] @ ''p/_commit.json'' @ [CHR 0x27] @ '']''"
  "repr_keys [''p/a.txt'', ''p/_commit.json'']
     = ''['' @ [CHR 0x27] @ ''p/a.txt'' @ [CHR 0x27] @ '', '' @ [CHR 0x27] @ ''p/_commit.json''
       @ [CHR 0x27] @ '']''"
  "repr_keys [''p/c.txt'', ''p/_commit.json'']
     = ''['' @ [CHR 0x27] @ ''p/c.txt'' @ [CHR 0x27] @ '', '' @ [CHR 0x27] @ ''p/_commit.json''
       @ [CHR 0x27] @ '']''"
  by code_simp+

text \<open>
  C5 (amended). A key that ends in the commit suffix is given the verdict clean by the
  scan loop without any download or scan: the state changes in that entry of the result
  map only. The size sweep makes no exception for it: when the sweep runs (no infected
  or error verdict so far), every key of the file map whose size exceeds 5 GiB, commit
  marker or not, gets the verdict error with the size-limit message and the batch is
  flagged; a key with no size above 5 GiB keeps its verdict; when the batch is already
  flagged the sweep changes nothing.
\<close>

theorem commit_marker_scan_and_sweep:
  fixes s :: "'w state"
  shows
    "(endswith k ''_commit.json'' \<longrightarrow>
        scan_one pf lb k s
          = (Inr (), s\<lparr>scan_results_map := AList.update k (''clean'', None) (scan_results_map s)\<rparr>)) \<and>
     (\<not> is_batch_infected_or_error s \<and> (k, sz) \<in> set (files_to_process s) \<and>
      sz > 5 * 1024 * 1024 * 1024 \<longrightarrow>
        map_of (scan_results_map (snd (size_sweep s))) k
          = Some (''error'', Some ''File exceeds 5GB copy limit'') \<and>
        is_batch_infected_or_error (snd (size_sweep s))) \<and>
     (\<not> is_batch_infected_or_error s \<and>
      (\<forall>sz. (k, sz) \<in> set (files_to_process s) \<longrightarrow> sz \<le> 5 * 1024 * 1024 * 1024) \<longrightarrow>
        map_of (scan_results_map (snd (size_sweep s))) k = map_of (scan_results_map s) k) \<and>
     (is_batch_infected_or_error s \<longrightarrow> size_sweep s = (Inr (), s))"
proof (intro conjI impI)
  show "endswith k ''_commit.json'' \<Longrightarrow>
      scan_one pf lb k s
        = (Inr (), s\<lparr>scan_results_map := AList.update k (''clean'', None) (scan_results_map s)\<rparr>)"
    by (simp add: scan_one_marker set_result_def)
  show "is_batch_infected_or_error s \<Longrightarrow> size_sweep s = (Inr (), s)"
    by (simp add: size_sweep_def)
next
  assume a: "\<not> is_batch_infected_or_error s \<and> (k, sz) \<in> set (files_to_process s) \<and>
      sz > 5 * 1024 * 1024 * 1024"
  then have big: "\<exists>sz. (k, sz) \<in> set (files_to_process s) \<and> sz > FIVE_GB"
    unfolding FIVE_GB_def by (intro exI [of _ sz]) simp
  from a have r: "size_sweep s = for_each sweep_one (files_to_process s) s"
    by (simp add: size_sweep_def)
  show "map_of (scan_results_map (snd (size_sweep s))) k
      = Some (''error'', Some ''File exceeds 5GB copy limit'')"
    unfolding r using sweep_loop_effect [of "files_to_process s" s] big
    by (simp add: map_of_swept oversize_verdict_def)
  have "\<exists>k sz. (k, sz) \<in> set (files_to_process s) \<and> sz > FIVE_GB"
    using big by (rule exI)
  then show "is_batch_infected_or_error (snd (size_sweep s))"
    unfolding r using sweep_loop_effect [of "files_to_process s" s] by simp
next
  assume a: "\<not> is_batch_infected_or_error s \<and>
      (\<forall>sz. (k, sz) \<in> set (files_to_process s) \<longrightarrow> sz \<le> 5 * 1024 * 1024 * 1024)"
  then have small: "\<not> (\<exists>sz. (k, sz) \<in> set (files_to_process s) \<and> sz > FIVE_GB)"
    unfolding FIVE_GB_def by (simp add: not_less)
  from a have r: "size_sweep s = for_each sweep_one (files_to_process s) s"
    by (simp add: size_sweep_def)
  have e: "map_of (swept (files_to_process s) (scan_results_map s)) k
      = map_of (scan_results_map s) k"
    unfolding map_of_swept using small by (rule if_not_P)
  have "scan_results_map (snd (for_each sweep_one (files_to_process s) s))
      = swept (files_to_process s) (scan_results_map s)"
    using sweep_loop_effect [of "files_to_process s" s] by simp
  then show "map_of (scan_results_map (snd (size_sweep s))) k = map_of (scan_results_map s) k"
    unfolding r using e by simp
qed

theorem commit_marker_scan_and_sweep_witness:
  "endswith ''p/_commit.json'' ''_commit.json'' \<and>
   scan_one big_marker (Some ''landing'') ''p/_commit.json'' (listed [(''p/_commit.json'', 5368709121)])
     = (Inr (), (listed [(''p/_commit.json'', 5368709121)])
                  \<lparr>scan_results_map := [(''p/_commit.json'', ''clean'', None)]\<rparr>) \<and>
   \<not> is_batch_infected_or_error (listed [(''p/_commit.json'', 5368709121), (''p/a.txt'', 7)]) \<and>
   (''p/_commit.json'', 5368709121)
     \<in> set (files_to_process (listed [(''p/_commit.json'', 5368709121), (''p/a.txt'', 7)])) \<and>
   (5368709121 :: int) > 5 * 1024 * 1024 * 1024 \<and>
   map_of (scan_results_map (snd (size_sweep
       (listed [(''p/_commit.json'', 5368709121), (''p/a.txt'', 7)])))) ''p/_commit.json''
     = Some (''error'', Some ''File exceeds 5GB copy limit'') \<and>
   [f \<leftarrow> files_to_process (listed [(''p/_commit.json'', 5368709121), (''p/a.txt'', 7)]).
      fst f = ''p/a.txt''] = [(''p/a.txt'', 7)] \<and>
   (7 :: int) \<le> 5 * 1024 * 1024 * 1024 \<and>
   map_of (scan_results_map (snd (size_sweep
       (listed [(''p/_commit.json'', 5368709121), (''p/a.txt'', 7)])))) ''p/a.txt'' = None \<and>
   is_batch_infected_or_error (set_flag (listed [])) \<and>
   size_sweep (set_flag (listed [])) = (Inr (), set_flag (listed []))"
proof -
  let ?s = "listed [(''p/_commit.json'', 5368709121), (''p/a.txt'', 7)]"
  have s: "scan_results_map ?s = []" "\<not> is_batch_infected_or_error ?s"
    "files_to_process ?s = [(''p/_commit.json'', 5368709121), (''p/a.txt'', 7)]"
    "scan_results_map (listed [(''p/_commit.json'', 5368709121)]) = []"
    by (simp_all add: listed_def start_def)
  have c1: "scan_one big_marker (Some ''landing'') ''p/_commit.json''
       (listed [(''p/_commit.json'', 5368709121)])
     = (Inr (), (listed [(''p/_commit.json'', 5368709121)])
                  \<lparr>scan_results_map := [(''p/_commit.json'', ''clean'', None)]\<rparr>)"
    using commit_marker_scan_and_sweep [where k = "''p/_commit.json''" and pf = big_marker
        and lb = "Some ''landing''" and s = "listed [(''p/_commit.json'', 5368709121)]",
        THEN conjunct1] key_facts(4) s(4)
    by simp
  have m: "(''p/_commit.json'', 5368709121) \<in> set (files_to_process ?s)"
    by (simp add: s)
  have c2: "map_of (scan_results_map (snd (size_sweep ?s))) ''p/_commit.json''
     = Some (''error'', Some ''File exceeds 5GB copy limit'')"
    using commit_marker_scan_and_sweep [where k = "''p/_commit.json''" and sz = 5368709121
        and s = ?s, THEN conjunct2, THEN conjunct1] s(2) m
    by simp
  have sm: "\<forall>sz. (''p/a.txt'', sz) \<in> set (files_to_process ?s) \<longrightarrow> sz \<le> 5 * 1024 * 1024 * 1024"
    by (simp add: s)
  have c3: "map_of (scan_results_map (snd (size_sweep ?s))) ''p/a.txt'' = None"
    using commit_marker_scan_and_sweep [where k = "''p/a.txt''" and s = ?s,
        THEN conjunct2, THEN conjunct2, THEN conjunct1] s(1,2) sm
    by simp
  have f: "is_batch_infected_or_error (set_flag (listed []))" by simp
  have c4: "size_sweep (set_flag (listed [])) = (Inr (), set_flag (listed []))"
    using commit_marker_scan_and_sweep [where s = "set_flag (listed [])",
        THEN conjunct2, THEN conjunct2, THEN conjunct2] f
    by simp
  have sm': "[f \<leftarrow> files_to_process ?s. fst f = ''p/a.txt''] = [(''p/a.txt'', 7)]"
    "(7 :: int) \<le> 5 * 1024 * 1024 * 1024"
    by (simp_all add: s)
  show ?thesis
    using key_facts(4) c1 s(2) m c2 sm' c3 f c4
    by (intro conjI) (simp_all only: simp_thms)
qed

text \<open>
  C5 as stated fails: a batch whose commit marker has a recorded size of 5 GiB and one
  byte is quarantined with the marker's verdict downgraded to error by the size sweep.
\<close>

theorem commit_marker_swept_counterexample:
  "endswith ''p/_commit.json'' ''_commit.json'' \<and>
   scan_results_map (snd (handler_scan big_marker (S3Event ''p/_commit.json'') start))
     = [(''p/_commit.json'', ''error'', Some ''File exceeds 5GB copy limit'')] \<and>
   copies (trace (snd (handler_scan big_marker (S3Event ''p/_commit.json'') start)))
     = [(Some ''quarantine'', ''p/_commit.json'')]"
  by (simp add: run_defs big_marker_def key_facts repr_keys_examples)

section \<open>The batch decision and the routing\<close>

lemma move_folder_effect:
  "fst (move_folder pf lb qb moving k s) = Inr () \<and>
   copies (trace (snd (move_folder pf lb qb moving k s))) = copies (trace s) @ [(qb, k)] \<and>
   files_to_process (snd (move_folder pf lb qb moving k s)) = files_to_process s \<and>
   folder_keys_to_move (snd (move_folder pf lb qb moving k s)) = folder_keys_to_move s \<and>
   scan_results_map (snd (move_folder pf lb qb moving k s)) = scan_results_map s \<and>
   is_batch_infected_or_error (snd (move_folder pf lb qb moving k s))
     = is_batch_infected_or_error s"
  by (simp add: move_folder_def step op_defs split: sum.splits)

lemma delete_folder_effect:
  "fst (delete_folder pf lb k s) = Inr () \<and>
   copies (trace (snd (delete_folder pf lb k s))) = copies (trace s) \<and>
   files_to_process (snd (delete_folder pf lb k s)) = files_to_process s \<and>
   folder_keys_to_move (snd (delete_folder pf lb k s)) = folder_keys_to_move s \<and>
   scan_results_map (snd (delete_folder pf lb k s)) = scan_results_map s \<and>
   is_batch_infected_or_error (snd (delete_folder pf lb k s)) = is_batch_infected_or_error s"
  by (simp add: delete_folder_def step op_defs split: sum.splits)

lemma delete_folder_trace:
  "\<exists>evs. trace (snd (delete_folder pf lb k s))
     = trace s @ Print (''Deleting clean folder object: '' @ k) # DeleteObject lb k # evs"
  by (simp add: delete_folder_def step op_defs split: sum.splits)

lemma extends_by_two:
  "tr' = tr @ a # b # evs \<Longrightarrow> set tr \<subseteq> set tr' \<and> b \<in> set tr'"
  by auto

lemma delete_folders_trace:
  "set (trace s) \<subseteq> set (trace (snd (for_each (delete_folder pf lb) ks s))) \<and>
   (\<forall>k \<in> set ks. DeleteObject lb k \<in> set (trace (snd (for_each (delete_folder pf lb) ks s))))"
proof (induction ks arbitrary: s)
  case Nil
  then show ?case by simp
next
  case (Cons k ks)
  let ?s1 = "snd (delete_folder pf lb k s)"
  let ?s2 = "snd (for_each (delete_folder pf lb) ks ?s1)"
  obtain evs where evs: "trace ?s1
      = trace s @ Print (''Deleting clean folder object: '' @ k) # DeleteObject lb k # evs"
    using delete_folder_trace [of pf lb k s] ..
  from extends_by_two [OF evs]
  have a: "set (trace s) \<subseteq> set (trace ?s1)" "DeleteObject lb k \<in> set (trace ?s1)"
    by simp_all
  have r: "for_each (delete_folder pf lb) (k # ks) s = for_each (delete_folder pf lb) ks ?s1"
    using delete_folder_effect [of pf lb k s]
    by (simp add: for_each_alt del: for_each.simps(2))
  from Cons [of ?s1] have b: "set (trace ?s1) \<subseteq> set (trace ?s2)"
    "\<forall>k \<in> set ks. DeleteObject lb k \<in> set (trace ?s2)"
    by simp_all
  from a b have "set (trace s) \<subseteq> set (trace ?s2)" "DeleteObject lb k \<in> set (trace ?s2)"
    by blast+
  with b(2) show ?case
    unfolding r by simp
qed

lemma delete_folders_effect:
  "fst (for_each (delete_folder pf lb) ks s) = Inr () \<and>
   copies (trace (snd (for_each (delete_folder pf lb) ks s))) = copies (trace s)"
proof (induction ks arbitrary: s)
  case Nil
  then show ?case by simp
next
  case (Cons k ks)
  from Cons [of "snd (delete_folder pf lb k s)"] delete_folder_effect [of pf lb k s]
  show ?case by (simp add: for_each_alt del: for_each.simps(2))
qed

lemma move_folders_effect:
  "fst (for_each (move_folder pf lb qb moving) ks s) = Inr () \<and>
   copies (trace (snd (for_each (move_folder pf lb qb moving) ks s)))
     = copies (trace s) @ map (\<lambda>k. (qb, k)) ks"
proof (induction ks arbitrary: s)
  case Nil
  then show ?case by simp
next
  case (Cons k ks)
  from Cons [of "snd (move_folder pf lb qb moving k s)"] move_folder_effect [of pf lb qb moving k s]
  show ?case by (simp add: for_each_alt del: for_each.simps(2))
qed

lemma route_batch_flagged:
  assumes "is_batch_infected_or_error s"
  shows "\<exists>n \<le> length (scan_results_map s).
     copies (trace (snd (route_batch pf lb pb qb s)))
       = copies (trace s) @ map (\<lambda>e. (qb, fst e)) (take n (scan_results_map s))
         @ (if fst (route_batch pf lb pb qb s) = Inr ()
            then map (\<lambda>k. (qb, k)) (folder_keys_to_move s) else []) \<and>
     (fst (route_batch pf lb pb qb s) = Inr () \<longrightarrow> n = length (scan_results_map s)) \<and>
     (fst (route_batch pf lb pb qb s) = Inr ())
       = (fst (move_and_tag_files pf qb (scan_results_map s)
            (snd (print ''Batch contains infected, errored, or oversized files. Moving all files to quarantine.'' s))) = Inr ())"
proof -
  let ?s1 = "snd (print ''Batch contains infected, errored, or oversized files. Moving all files to quarantine.'' s)"
  let ?s2 = "snd (move_and_tag_files pf qb (scan_results_map s) ?s1)"
  from move_and_tag_files_copies [of "scan_results_map s" pf qb ?s1]
  obtain n where n: "n \<le> length (scan_results_map s) \<and>
     copies (trace ?s2) = copies (trace ?s1) @ map (\<lambda>e. (qb, fst e)) (take n (scan_results_map s)) \<and>
     (fst (move_and_tag_files pf qb (scan_results_map s) ?s1) = Inr () \<longrightarrow>
        n = length (scan_results_map s))" ..
  show ?thesis
  proof (cases "fst (move_and_tag_files pf qb (scan_results_map s) ?s1)")
    case (Inl e)
    with n assms show ?thesis
      by (intro exI [of _ n]) (simp add: route_batch_def step)
  next
    case (Inr u)
    with n assms move_folders_effect [of pf lb qb "''Moving folder ''" "folder_keys_to_move s" ?s2]
    show ?thesis
      by (intro exI [of _ n]) (simp add: route_batch_def step)
  qed
qed

lemma route_batch_clean:
  assumes "\<not> is_batch_infected_or_error s"
  shows "\<exists>n \<le> length (scan_results_map s).
     copies (trace (snd (route_batch pf lb pb qb s)))
       = copies (trace s) @ map (\<lambda>e. (pb, fst e)) (take n (scan_results_map s)) \<and>
     (fst (route_batch pf lb pb qb s) = Inr () \<longrightarrow>
        n = length (scan_results_map s) \<and>
        (\<forall>k \<in> set (folder_keys_to_move s).
            DeleteObject lb k \<in> set (trace (snd (route_batch pf lb pb qb s))))) \<and>
     (fst (route_batch pf lb pb qb s) = Inr ())
       = (fst (move_and_tag_files pf pb (scan_results_map s)
            (snd (print ''Batch is clean and within size limits. Moving all files to processed.'' s))) = Inr ())"
proof -
  let ?s1 = "snd (print ''Batch is clean and within size limits. Moving all files to processed.'' s)"
  let ?s2 = "snd (move_and_tag_files pf pb (scan_results_map s) ?s1)"
  from move_and_tag_files_copies [of "scan_results_map s" pf pb ?s1]
  obtain n where n: "n \<le> length (scan_results_map s) \<and>
     copies (trace ?s2) = copies (trace ?s1) @ map (\<lambda>e. (pb, fst e)) (take n (scan_results_map s)) \<and>
     (fst (move_and_tag_files pf pb (scan_results_map s) ?s1) = Inr () \<longrightarrow>
        n = length (scan_results_map s))" ..
  show ?thesis
  proof (cases "fst (move_and_tag_files pf pb (scan_results_map s) ?s1)")
    case (Inl e)
    with n assms show ?thesis
      by (intro exI [of _ n]) (simp add: route_batch_def step)
  next
    case (Inr u)
    with n assms delete_folders_effect [of pf lb "folder_keys_to_move s" ?s2]
      delete_folders_trace [of ?s2 pf lb "folder_keys_to_move s"]
    show ?thesis
      by (intro exI [of _ n]) (simp add: route_batch_def step)
  qed
qed

lemma swept_none:
  "\<not> (\<exists>k sz. (k, sz) \<in> set items \<and> sz > FIVE_GB) \<Longrightarrow> swept items m = m"
proof (induction items arbitrary: m)
  case Nil
  then show ?case by simp
next
  case (Cons item items)
  obtain k sz where item: "item = (k, sz)" by (cases item)
  from Cons.prems have "\<not> sz > FIVE_GB" "\<not> (\<exists>k sz. (k, sz) \<in> set items \<and> sz > FIVE_GB)"
    unfolding item by auto
  with Cons.IH [of m] show ?case
    unfolding item swept_Cons by simp
qed

lemma flagged_oversize: "flagged [(k, oversize_verdict)]"
  unfolding flagged_def oversize_verdict_def
  by (intro exI [of _ k] exI [of _ "(''error'', Some ''File exceeds 5GB copy limit'')"]) simp

lemma flagged_mono: "set m \<subseteq> set m' \<Longrightarrow> flagged m \<Longrightarrow> flagged m'"
  unfolding flagged_def by (elim exE conjE) (meson subsetD)

lemma flagged_swept:
  "flagged (swept items m) = (flagged m \<or> (\<exists>k sz. (k, sz) \<in> set items \<and> sz > FIVE_GB))"
proof (cases "\<exists>k sz. (k, sz) \<in> set items \<and> sz > FIVE_GB")
  case False
  from swept_none [OF False] have e: "swept items m = m" .
  show ?thesis unfolding e using False by (simp only: simp_thms)
next
  case True
  then obtain k sz where "(k, sz) \<in> set items \<and> sz > FIVE_GB" by (elim exE)
  then have "\<exists>sz. (k, sz) \<in> set items \<and> sz > FIVE_GB" by (rule exI)
  then have "map_of (swept items m) k = Some oversize_verdict"
    by (simp only: map_of_swept if_True)
  then have "(k, oversize_verdict) \<in> set (swept items m)" by (rule map_of_SomeD)
  then have "set [(k, oversize_verdict)] \<subseteq> set (swept items m)" by simp
  from flagged_mono [OF this flagged_oversize] True show ?thesis by simp
qed

lemma decision_effect:
  fixes s :: "'w state"
  assumes d: "distinct (map fst (files_to_process s))"
    and m: "scan_results_map s = []" and f: "\<not> is_batch_infected_or_error s"
  shows "fst (size_sweep (snd (scan_files pf lb s))) = Inr () \<and>
     is_batch_infected_or_error (snd (size_sweep (snd (scan_files pf lb s))))
       = (flagged (scan_results_map (snd (scan_files pf lb s))) \<or>
          (\<exists>k sz. (k, sz) \<in> set (files_to_process s) \<and> sz > FIVE_GB)) \<and>
     is_batch_infected_or_error (snd (size_sweep (snd (scan_files pf lb s))))
       = flagged (scan_results_map (snd (size_sweep (snd (scan_files pf lb s))))) \<and>
     map fst (scan_results_map (snd (size_sweep (snd (scan_files pf lb s)))))
       = map fst (files_to_process s) \<and>
     folder_keys_to_move (snd (size_sweep (snd (scan_files pf lb s)))) = folder_keys_to_move s"
proof -
  let ?s1 = "snd (scan_files pf lb s)"
  from scan_loop_effect [OF d m f, of pf lb]
  have s1: "map fst (scan_results_map ?s1) = map fst (files_to_process s)"
    "is_batch_infected_or_error ?s1 = flagged (scan_results_map ?s1)"
    "files_to_process ?s1 = files_to_process s"
    "folder_keys_to_move ?s1 = folder_keys_to_move s"
    by (simp_all add: scan_files_def)
  show ?thesis
  proof (cases "is_batch_infected_or_error ?s1")
    case True
    then have r: "size_sweep ?s1 = (Inr (), ?s1)" by (simp add: size_sweep_def)
    from True s1 show ?thesis unfolding r by simp
  next
    case False
    then have r: "size_sweep ?s1 = for_each sweep_one (files_to_process s) ?s1"
      by (simp add: size_sweep_def s1)
    have k: "map fst (swept (files_to_process s) (scan_results_map ?s1))
        = map fst (scan_results_map ?s1)"
      by (rule keys_swept) (simp add: s1)
    from False s1(2) have nf: "\<not> flagged (scan_results_map ?s1)" by simp
    from sweep_loop_effect [of "files_to_process s" ?s1] False nf k s1 show ?thesis
      unfolding r by (simp add: flagged_swept)
  qed
qed

lemma route_batch_total:
  assumes "environ pf ''LANDING_BUCKET_NAME'' = Some lb'" and "storage_errors_only pf"
  shows "fst (route_batch pf lb pb qb s) = Inr ()"
proof (cases "is_batch_infected_or_error s")
  case True
  from route_batch_flagged [OF True, of pf lb pb qb] move_and_tag_files_total [OF assms]
  show ?thesis by (elim exE conjE) simp
next
  case False
  from route_batch_clean [OF False, of pf lb pb qb] move_and_tag_files_total [OF assms]
  show ?thesis by (elim exE conjE) simp
qed

lemma route_batch_copies:
  "set (copies (trace (snd (route_batch pf lb pb qb s))))
     \<subseteq> set (copies (trace s)) \<union> {if is_batch_infected_or_error s then qb else pb} \<times> UNIV"
  "fst (route_batch pf lb pb qb s) = Inr () \<Longrightarrow>
   copies (trace (snd (route_batch pf lb pb qb s)))
     = copies (trace s)
       @ map (\<lambda>e. (if is_batch_infected_or_error s then qb else pb, fst e)) (scan_results_map s)
       @ (if is_batch_infected_or_error s then map (\<lambda>k. (qb, k)) (folder_keys_to_move s) else [])"
  "fst (route_batch pf lb pb qb s) = Inr () \<Longrightarrow> \<not> is_batch_infected_or_error s \<Longrightarrow>
   \<forall>k \<in> set (folder_keys_to_move s).
      DeleteObject lb k \<in> set (trace (snd (route_batch pf lb pb qb s)))"
proof -
  show "set (copies (trace (snd (route_batch pf lb pb qb s))))
     \<subseteq> set (copies (trace s)) \<union> {if is_batch_infected_or_error s then qb else pb} \<times> UNIV"
  proof (cases "is_batch_infected_or_error s")
    case True
    from route_batch_flagged [OF True, of pf lb pb qb] obtain n where
      "copies (trace (snd (route_batch pf lb pb qb s)))
       = copies (trace s) @ map (\<lambda>e. (qb, fst e)) (take n (scan_results_map s))
         @ (if fst (route_batch pf lb pb qb s) = Inr ()
            then map (\<lambda>k. (qb, k)) (folder_keys_to_move s) else [])"
      by (elim exE conjE)
    with True show ?thesis by auto
  next
    case False
    from route_batch_clean [OF False, of pf lb pb qb] obtain n where
      "copies (trace (snd (route_batch pf lb pb qb s)))
       = copies (trace s) @ map (\<lambda>e. (pb, fst e)) (take n (scan_results_map s))"
      by (elim exE conjE)
    with False show ?thesis by auto
  qed
  show "copies (trace (snd (route_batch pf lb pb qb s)))
     = copies (trace s)
       @ map (\<lambda>e. (if is_batch_infected_or_error s then qb else pb, fst e)) (scan_results_map s)
       @ (if is_batch_infected_or_error s then map (\<lambda>k. (qb, k)) (folder_keys_to_move s) else [])"
    if ok: "fst (route_batch pf lb pb qb s) = Inr ()"
  proof (cases "is_batch_infected_or_error s")
    case True
    from route_batch_flagged [OF True, of pf lb pb qb] ok True show ?thesis
      by (elim exE conjE) simp
  next
    case False
    from route_batch_clean [OF False, of pf lb pb qb] ok False show ?thesis
      by (elim exE conjE) simp
  qed
  show "\<forall>k \<in> set (folder_keys_to_move s).
      DeleteObject lb k \<in> set (trace (snd (route_batch pf lb pb qb s)))"
    if ok: "fst (route_batch pf lb pb qb s) = Inr ()" and nf: "\<not> is_batch_infected_or_error s"
    using route_batch_clean [OF nf, of pf lb pb qb] ok
    by (elim exE conjE) simp
qed

text \<open>
  C1 (amended). After the scan loop and the size sweep the batch is flagged for
  quarantine if and only if some verdict of the scan loop is infected or error or some
  file's size exceeds 5 GiB -- equivalently, if and only if some verdict of the final
  result map is infected or error -- and the result map has one entry per file key,
  the commit marker included. Routing uses the one destination that the flag selects:
  every copy that routing issues targets it, and when routing completes the copies are
  exactly those of every entry of the result map, in order, followed, when the batch is
  quarantined, by those of every folder placeholder. When the batch is processed the
  folder placeholders are not copied: each of them is deleted from the landing bucket.
  Routing completes when the landing bucket is configured and the storage calls raise
  storage errors only.
\<close>

theorem batch_decision_and_routing:
  fixes s :: "'w state"
  shows
    "(distinct (map fst (files_to_process s)) \<and> scan_results_map s = [] \<and>
      \<not> is_batch_infected_or_error s \<longrightarrow>
        fst (size_sweep (snd (scan_files pf lb s))) = Inr () \<and>
        is_batch_infected_or_error (snd (size_sweep (snd (scan_files pf lb s))))
          = (flagged (scan_results_map (snd (scan_files pf lb s))) \<or>
             (\<exists>k sz. (k, sz) \<in> set (files_to_process s) \<and> sz > 5 * 1024 * 1024 * 1024)) \<and>
        is_batch_infected_or_error (snd (size_sweep (snd (scan_files pf lb s))))
          = flagged (scan_results_map (snd (size_sweep (snd (scan_files pf lb s))))) \<and>
        map fst (scan_results_map (snd (size_sweep (snd (scan_files pf lb s)))))
          = map fst (files_to_process s) \<and>
        folder_keys_to_move (snd (size_sweep (snd (scan_files pf lb s))))
          = folder_keys_to_move s) \<and>
     set (copies (trace (snd (route_batch pf lb pb qb s))))
       \<subseteq> set (copies (trace s)) \<union> {if is_batch_infected_or_error s then qb else pb} \<times> UNIV \<and>
     (fst (route_batch pf lb pb qb s) = Inr () \<longrightarrow>
        copies (trace (snd (route_batch pf lb pb qb s)))
          = copies (trace s)
            @ map (\<lambda>e. (if is_batch_infected_or_error s then qb else pb, fst e))
                (scan_results_map s)
            @ (if is_batch_infected_or_error s
               then map (\<lambda>k. (qb, k)) (folder_keys_to_move s) else [])) \<and>
     (fst (route_batch pf lb pb qb s) = Inr () \<and> \<not> is_batch_infected_or_error s \<longrightarrow>
        (\<forall>k \<in> set (folder_keys_to_move s).
            DeleteObject lb k \<in> set (trace (snd (route_batch pf lb pb qb s))))) \<and>
     (environ pf ''LANDING_BUCKET_NAME'' = Some lb' \<and> storage_errors_only pf \<longrightarrow>
        fst (route_batch pf lb pb qb s) = Inr ())"
proof (intro conjI)
  show "distinct (map fst (files_to_process s)) \<and> scan_results_map s = [] \<and>
      \<not> is_batch_infected_or_error s \<longrightarrow>
        fst (size_sweep (snd (scan_files pf lb s))) = Inr () \<and>
        is_batch_infected_or_error (snd (size_sweep (snd (scan_files pf lb s))))
          = (flagged (scan_results_map (snd (scan_files pf lb s))) \<or>
             (\<exists>k sz. (k, sz) \<in> set (files_to_process s) \<and> sz > 5 * 1024 * 1024 * 1024)) \<and>
        is_batch_infected_or_error (snd (size_sweep (snd (scan_files pf lb s))))
          = flagged (scan_results_map (snd (size_sweep (snd (scan_files pf lb s))))) \<and>
        map fst (scan_results_map (snd (size_sweep (snd (scan_files pf lb s)))))
          = map fst (files_to_process s) \<and>
        folder_keys_to_move (snd (size_sweep (snd (scan_files pf lb s))))
          = folder_keys_to_move s"
    using decision_effect [of s pf lb] unfolding FIVE_GB_def by blast
  show "set (copies (trace (snd (route_batch pf lb pb qb s))))
       \<subseteq> set (copies (trace s)) \<union> {if is_batch_infected_or_error s then qb else pb} \<times> UNIV"
    by (rule route_batch_copies(1))
  show "fst (route_batch pf lb pb qb s) = Inr () \<longrightarrow>
        copies (trace (snd (route_batch pf lb pb qb s)))
          = copies (trace s)
            @ map (\<lambda>e. (if is_batch_infected_or_error s then qb else pb, fst e))
                (scan_results_map s)
            @ (if is_batch_infected_or_error s
               then map (\<lambda>k. (qb, k)) (folder_keys_to_move s) else [])"
    using route_batch_copies(2) [of pf lb pb qb s] by blast
  show "fst (route_batch pf lb pb qb s) = Inr () \<and> \<not> is_batch_infected_or_error s \<longrightarrow>
        (\<forall>k \<in> set (folder_keys_to_move s).
            DeleteObject lb k \<in> set (trace (snd (route_batch pf lb pb qb s))))"
    using route_batch_copies(3) [of pf lb pb qb s] by blast
  show "environ pf ''LANDING_BUCKET_NAME'' = Some lb' \<and> storage_errors_only pf \<longrightarrow>
        fst (route_batch pf lb pb qb s) = Inr ()"
    using route_batch_total [of pf lb' lb pb qb s] by blast
qed

lemma clean_batch_platform:
  "environ clean_batch ''LANDING_BUCKET_NAME'' = Some ''landing''"
  "storage_errors_only clean_batch"
  by (simp_all add: clean_batch_def scripted_def buckets_def storage_errors_only_def)

theorem batch_decision_and_routing_witness:
  "distinct (map fst (files_to_process (listed [(''p/a.txt'', 10), (''p/_commit.json'', 2)]))) \<and>
   scan_results_map (listed [(''p/a.txt'', 10), (''p/_commit.json'', 2)]) = [] \<and>
   \<not> is_batch_infected_or_error (listed [(''p/a.txt'', 10), (''p/_commit.json'', 2)]) \<and>
   map fst (scan_results_map (snd (size_sweep (snd (scan_files clean_batch (Some ''landing'')
       (listed [(''p/a.txt'', 10), (''p/_commit.json'', 2)]))))))
     = [''p/a.txt'', ''p/_commit.json''] \<and>
   environ clean_batch ''LANDING_BUCKET_NAME'' = Some ''landing'' \<and>
   storage_errors_only clean_batch \<and>
   \<not> is_batch_infected_or_error scanned \<and>
   fst (route_batch clean_batch (Some ''landing'') (Some ''processed'') (Some ''quarantine'')
          scanned) = Inr () \<and>
   copies (trace (snd (route_batch clean_batch (Some ''landing'') (Some ''processed'')
       (Some ''quarantine'') scanned)))
     = [(Some ''processed'', ''p/a.txt''), (Some ''processed'', ''p/_commit.json'')] \<and>
   DeleteObject (Some ''landing'') ''p/sub/''
     \<in> set (trace (snd (route_batch clean_batch (Some ''landing'') (Some ''processed'')
                        (Some ''quarantine'') scanned))) \<and>
   is_batch_infected_or_error (set_flag scanned) \<and>
   fst (route_batch clean_batch (Some ''landing'') (Some ''processed'') (Some ''quarantine'')
          (set_flag scanned)) = Inr () \<and>
   copies (trace (snd (route_batch clean_batch (Some ''landing'') (Some ''processed'')
       (Some ''quarantine'') (set_flag scanned))))
     = [(Some ''quarantine'', ''p/a.txt''), (Some ''quarantine'', ''p/_commit.json''),
        (Some ''quarantine'', ''p/sub/'')]"
proof -
  let ?l = "listed [(''p/a.txt'', 10), (''p/_commit.json'', 2)]"
  have l: "distinct (map fst (files_to_process ?l))" "scan_results_map ?l = []"
    "\<not> is_batch_infected_or_error ?l"
    "files_to_process ?l = [(''p/a.txt'', 10), (''p/_commit.json'', 2)]"
    by (simp_all add: listed_def start_def)
  have s: "\<not> is_batch_infected_or_error scanned" "trace scanned = []"
    "folder_keys_to_move scanned = [''p/sub/'']"
    "scan_results_map scanned
       = [(''p/a.txt'', ''clean'', None), (''p/_commit.json'', ''clean'', None)]"
    by (simp_all add: scanned_def start_def)
  have c1: "map fst (scan_results_map (snd (size_sweep (snd (scan_files clean_batch
       (Some ''landing'') ?l))))) = [''p/a.txt'', ''p/_commit.json'']"
    using batch_decision_and_routing [where s = ?l and pf = clean_batch
        and lb = "Some ''landing''", THEN conjunct1] l
    by simp
  have c2: "fst (route_batch clean_batch (Some ''landing'') (Some ''processed'')
      (Some ''quarantine'') scanned) = Inr ()"
    using batch_decision_and_routing [where s = scanned and pf = clean_batch
        and lb = "Some ''landing''" and pb = "Some ''processed''" and qb = "Some ''quarantine''"
        and lb' = "''landing''",
        THEN conjunct2, THEN conjunct2, THEN conjunct2, THEN conjunct2] clean_batch_platform
    by simp
  have c3: "copies (trace (snd (route_batch clean_batch (Some ''landing'') (Some ''processed'')
       (Some ''quarantine'') scanned)))
     = [(Some ''processed'', ''p/a.txt''), (Some ''processed'', ''p/_commit.json'')]"
    using batch_decision_and_routing [where s = scanned and pf = clean_batch
        and lb = "Some ''landing''" and pb = "Some ''processed''" and qb = "Some ''quarantine''",
        THEN conjunct2, THEN conjunct2, THEN conjunct1] c2 s
    by simp
  have c4: "DeleteObject (Some ''landing'') ''p/sub/''
     \<in> set (trace (snd (route_batch clean_batch (Some ''landing'') (Some ''processed'')
                        (Some ''quarantine'') scanned)))"
    using batch_decision_and_routing [where s = scanned and pf = clean_batch
        and lb = "Some ''landing''" and pb = "Some ''processed''" and qb = "Some ''quarantine''",
        THEN conjunct2, THEN conjunct2, THEN conjunct2, THEN conjunct1] c2 s
    by simp
  have f: "is_batch_infected_or_error (set_flag scanned)" by simp
  have c5: "fst (route_batch clean_batch (Some ''landing'') (Some ''processed'')
      (Some ''quarantine'') (set_flag scanned)) = Inr ()"
    using batch_decision_and_routing [where s = "set_flag scanned" and pf = clean_batch
        and lb = "Some ''landing''" and pb = "Some ''processed''" and qb = "Some ''quarantine''"
        and lb' = "''landing''",
        THEN conjunct2, THEN conjunct2, THEN conjunct2, THEN conjunct2] clean_batch_platform
    by simp
  have c6: "copies (trace (snd (route_batch clean_batch (Some ''landing'') (Some ''processed'')
       (Some ''quarantine'') (set_flag scanned))))
     = [(Some ''quarantine'', ''p/a.txt''), (Some ''quarantine'', ''p/_commit.json''),
        (Some ''quarantine'', ''p/sub/'')]"
    using batch_decision_and_routing [where s = "set_flag scanned" and pf = clean_batch
        and lb = "Some ''landing''" and pb = "Some ''processed''" and qb = "Some ''quarantine''",
        THEN conjunct2, THEN conjunct2, THEN conjunct1] c5 s
    by simp
  show ?thesis
    using l(1,2,3) c1 clean_batch_platform s(1) c2 c3 c4 f c5 c6
    by (intro conjI) (simp_all only: simp_thms)
qed

text \<open>
  C1 as stated fails: in a clean batch the folder placeholder is a member that is not
  routed to the winning destination. The batch is processed, its file and its commit
  marker are copied to the processed bucket, and the folder placeholder is deleted
  from the landing bucket without being copied anywhere.
\<close>

theorem folder_not_routed_counterexample:
  "fst (handler_scan clean_batch (S3Event ''p/_commit.json'') start)
     = Inr (200, ''Batch processed successfully'') \<and>
   folder_keys_to_move (snd (handler_scan clean_batch (S3Event ''p/_commit.json'') start))
     = [''p/sub/''] \<and>
   copies (trace (snd (handler_scan clean_batch (S3Event ''p/_commit.json'') start)))
     = [(Some ''processed'', ''p/a.txt''), (Some ''processed'', ''p/_commit.json'')] \<and>
   (Some ''processed'', ''p/sub/'')
     \<notin> set (copies (trace (snd (handler_scan clean_batch (S3Event ''p/_commit.json'') start)))) \<and>
   DeleteObject (Some ''landing'') ''p/sub/''
     \<in> set (trace (snd (handler_scan clean_batch (S3Event ''p/_commit.json'') start)))"
  by (simp add: run_defs clean_batch_def key_facts repr_keys_examples)

section \<open>Batches without data files\<close>

lemma fetches_simps [simp]:
  "fetches (tr @ tr') = fetches tr @ fetches tr'"
  "fetches (c # tr) = fetched c @ fetches tr"
  "fetches [] = []"
  by (simp_all add: fetches_def)

lemma only_folders_run:
  "files_to_process (snd (handler_scan only_folders (S3Event ''p/_commit.json'') start)) = [] \<and>
   fst (handler_scan only_folders (S3Event ''p/_commit.json'') start)
     = Inr (200, ''Empty batch processed successfully'') \<and>
   fetches (trace (snd (handler_scan only_folders (S3Event ''p/_commit.json'') start))) = [] \<and>
   copies (trace (snd (handler_scan only_folders (S3Event ''p/_commit.json'') start)))
     = [(Some ''processed'', ''p/_commit.json'')] \<and>
   DeleteObject (Some ''landing'') ''p/sub/''
     \<in> set (trace (snd (handler_scan only_folders (S3Event ''p/_commit.json'') start)))"
  by (simp add: run_defs only_folders_def key_facts)

lemma only_marker_run:
  "files_to_process (snd (handler_scan only_marker (S3Event ''p/_commit.json'') start))
     = [(''p/_commit.json'', 2)] \<and>
   fst (handler_scan only_marker (S3Event ''p/_commit.json'') start)
     = Inr (200, ''Batch processed successfully'') \<and>
   fetches (trace (snd (handler_scan only_marker (S3Event ''p/_commit.json'') start)))
     = [''/tmp/clamav/clamav.tar.gz'',
        ''tar --extract --gzip --verbose --file=/tmp/clamav/clamav.tar.gz -C /tmp/clamav/database''] \<and>
   copies (trace (snd (handler_scan only_marker (S3Event ''p/_commit.json'') start)))
     = [(Some ''processed'', ''p/_commit.json'')]"
  by (simp add: run_defs only_marker_def key_facts repr_keys_examples)

lemma no_definitions_run:
  "files_to_process (snd (handler_scan no_definitions (S3Event ''p/_commit.json'') start))
     = [(''p/_commit.json'', 2)] \<and>
   fst (handler_scan no_definitions (S3Event ''p/_commit.json'') start)
     = Inr (500, ''An error occurred: Not Found'') \<and>
   fetches (trace (snd (handler_scan no_definitions (S3Event ''p/_commit.json'') start)))
     = [''/tmp/clamav/clamav.tar.gz''] \<and>
   copies (trace (snd (handler_scan no_definitions (S3Event ''p/_commit.json'') start)))
     = [(Some ''quarantine'', ''p/_commit.json''), (Some ''quarantine'', ''p/sub/'')]"
  by (simp add: run_defs no_definitions_def key_facts repr_keys_examples)

text \<open>
  C6. The branch of line 231 does what is claimed for a batch without data files: it
  routes the triggering commit marker alone to the processed bucket, deletes the folder
  placeholders from the landing bucket and answers at once. But its test,
  \<open>not files_to_process\<close>, counts the commit marker itself, which lines 225-229 record like
  every other key that does not end in a slash. So the branch is taken on \<open>only_folders\<close>,
  where the listing holds no marker, and it is not taken on a batch of the commit marker
  and one folder placeholder. On \<open>only_marker\<close> that batch takes the scan path: the
  definitions are downloaded and unpacked before the marker is routed. On
  \<open>no_definitions\<close>, the same batch with the definitions download failing, the batch is
  not classified as processed: the marker and the folder placeholder are copied to the
  quarantine bucket and the handler answers 500.
\<close>

theorem marker_only_batch_takes_scan_path:
  "files_to_process (snd (handler_scan only_folders (S3Event ''p/_commit.json'') start)) = [] \<and>
   fst (handler_scan only_folders (S3Event ''p/_commit.json'') start)
     = Inr (200, ''Empty batch processed successfully'') \<and>
   fetches (trace (snd (handler_scan only_folders (S3Event ''p/_commit.json'') start))) = [] \<and>
   copies (trace (snd (handler_scan only_folders (S3Event ''p/_commit.json'') start)))
     = [(Some ''processed'', ''p/_commit.json'')] \<and>
   DeleteObject (Some ''landing'') ''p/sub/''
     \<in> set (trace (snd (handler_scan only_folders (S3Event ''p/_commit.json'') start))) \<and>
   files_to_process (snd (handler_scan only_marker (S3Event ''p/_commit.json'') start))
     = [(''p/_commit.json'', 2)] \<and>
   fst (handler_scan only_marker (S3Event ''p/_commit.json'') start)
     = Inr (200, ''Batch processed successfully'') \<and>
   fetches (trace (snd (handler_scan only_marker (S3Event ''p/_commit.json'') start)))
     = [''/tmp/clamav/clamav.tar.gz'',
        ''tar --extract --gzip --verbose --file=/tmp/clamav/clamav.tar.gz -C /tmp/clamav/database''] \<and>
   copies (trace (snd (handler_scan only_marker (S3Event ''p/_commit.json'') start)))
     = [(Some ''processed'', ''p/_commit.json'')] \<and>
   files_to_process (snd (handler_scan no_definitions (S3Event ''p/_commit.json'') start))
     = [(''p/_commit.json'', 2)] \<and>
   fst (handler_scan no_definitions (S3Event ''p/_commit.json'') start)
     = Inr (500, ''An error occurred: Not Found'') \<and>
   fetches (trace (snd (handler_scan no_definitions (S3Event ''p/_commit.json'') start)))
     = [''/tmp/clamav/clamav.tar.gz''] \<and>
   copies (trace (snd (handler_scan no_definitions (S3Event ''p/_commit.json'') start)))
     = [(Some ''quarantine'', ''p/_commit.json''), (Some ''quarantine'', ''p/sub/'')]"
  using only_folders_run only_marker_run no_definitions_run by simp

section \<open>The scratch copy of a scanned file\<close>

text \<open>
  C9. The scratch copy is deleted by the \<open>os.remove\<close> of line 272, the last statement of
  the \<open>try\<close> block of the scan loop. When the scan of a file ends with a verdict the call
  is reached: in the run on \<open>clean_batch\<close> the copy of \<open>p/a.txt\<close> is removed and only the
  definitions archive is left. When clamscan exits with status 2, \<open>run_scan\<close> raises, the
  handler of line 274 records the verdict error, and line 272 is skipped: in the run on
  \<open>scanner_fails\<close> no \<open>os.remove\<close> is issued at all and \<open>/tmp/clamav/scan/c.txt\<close> is
  still there when the handler returns.
\<close>

theorem scratch_copy_left_after_scan_error:
  "world (snd (handler_scan clean_batch (S3Event ''p/_commit.json'') start))
     = [''/tmp/clamav/clamav.tar.gz''] \<and>
   [c \<leftarrow> trace (snd (handler_scan clean_batch (S3Event ''p/_commit.json'') start)).
      case c of Remove path \<Rightarrow> True | _ \<Rightarrow> False]
     = [Remove ''/tmp/clamav/scan/a.txt''] \<and>
   scan_results_map (snd (handler_scan scanner_fails (S3Event ''p/_commit.json'') start))
     = [(''p/c.txt'', ''error'',
         Some ''ClamAV scan error. Exit code: 2. STDERR: LibClamAV Error: cli_loaddbdir: No supported database files found''),
        (''p/_commit.json'', ''clean'', None)] \<and>
   world (snd (handler_scan scanner_fails (S3Event ''p/_commit.json'') start))
     = [''/tmp/clamav/scan/c.txt'', ''/tmp/clamav/clamav.tar.gz''] \<and>
   [c \<leftarrow> trace (snd (handler_scan scanner_fails (S3Event ''p/_commit.json'') start)).
      case c of Remove path \<Rightarrow> True | _ \<Rightarrow> False]
     = []"
  by (simp add: run_defs clean_batch_def scanner_fails_def key_facts repr_keys_examples)

end
